theory Spec2Isabelle
  imports Main "HOL-Library.Word"
begin

unbundle bit_operations_syntax

section \<open>SoftwareServo: a timer-multiplexed servo driver for the ESP8266\<close>

text \<open>
  A shallow embedding of \<^verbatim>\<open>SoftwareServo.cpp\<close> and \<^verbatim>\<open>SoftwareServo.h\<close>.
  The file-level statics of the C++ source are the fields of the record
  \<open>servo_globals\<close>; the private members of a \<^verbatim>\<open>SoftwareServo\<close> object are the
  fields of the record \<open>SoftwareServo\<close>. A method takes its object and the globals and
  returns both, updated. Undefined behaviour of the source (an integer division by zero,
  an array access outside the four declared elements) is a value of type \<open>fault\<close>.

  The C type \<^verbatim>\<open>int\<close> (32 bits on this target) is modelled by \<open>int\<close>. The only
  products the driver forms are those of \<^verbatim>\<open>improved_map\<close>, from an angle in
  \<open>[0, 180]\<close> or a pulse width and a calibration of type \<^verbatim>\<open>uint16_t\<close>; they stay below
  \<open>2 ^ 31\<close> (lemmas \<open>angle_product_fits\<close> and \<open>width_product_fits\<close>).
\<close>

subsection \<open>Constants of the header\<close>

definition DEFAULT_MIN_PULSE_WIDTH :: int where
  "DEFAULT_MIN_PULSE_WIDTH = 1000"

definition DEFAULT_MAX_PULSE_WIDTH :: int where
  "DEFAULT_MAX_PULSE_WIDTH = 2000"

definition DEFAULT_NEUTRAL_PULSE_WIDTH :: int where
  "DEFAULT_NEUTRAL_PULSE_WIDTH = 1500"

definition REFRESH_INTERVAL :: int where
  "REFRESH_INTERVAL = 5"

definition MAX_SERVOS :: nat where
  "MAX_SERVOS = 4"

subsection \<open>Faults and C arithmetic\<close>

datatype fault = DivisionByZero | IndexOutOfBounds

text \<open>The \<^verbatim>\<open>/\<close> of C on \<^verbatim>\<open>int\<close>: the quotient is truncated towards zero, and a
  zero divisor is undefined behaviour.\<close>

definition c_div :: "int \<Rightarrow> int \<Rightarrow> fault + int" where
  "c_div a b =
     (if b = 0 then Inl DivisionByZero
      else if (a < 0) = (b < 0) then Inr (\<bar>a\<bar> div \<bar>b\<bar>)
      else Inr (- (\<bar>a\<bar> div \<bar>b\<bar>)))"

text \<open>Sequencing of two computations that may fault.\<close>

definition and_then :: "fault + 'a \<Rightarrow> ('a \<Rightarrow> fault + 'b) \<Rightarrow> fault + 'b" where
  "and_then m f = (case m of Inl e \<Rightarrow> Inl e | Inr x \<Rightarrow> f x)"

text \<open>Modelled from the spec: the macro \<^verbatim>\<open>constrain(amt, low, high)\<close> comes from
  \<^verbatim>\<open>Arduino.h\<close>, which is not part of the repository; the spec calls it a clamp of the
  value into the closed interval of the two bounds. The bound below is tested first, as in
  the macro of the Arduino core.\<close>

definition constrain :: "int \<Rightarrow> int \<Rightarrow> int \<Rightarrow> int" where
  "constrain amt low high = (if amt < low then low else if amt > high then high else amt)"

subsection \<open>The mapping helper\<close>

definition improved_map :: "int \<Rightarrow> int \<Rightarrow> int \<Rightarrow> int \<Rightarrow> int \<Rightarrow> fault + int" where
  "improved_map val minIn maxIn minOut maxOut =
     (let rangeIn = maxIn - minIn;
          rangeOut = maxOut - minOut;
          deltaIn = val - minIn;
          fixedHalfDecimal = 1;
          fixedDecimal = fixedHalfDecimal * 2
      in and_then (c_div (deltaIn * rangeOut * fixedDecimal) rangeIn) (\<lambda>q.
         and_then (c_div (q + fixedHalfDecimal) fixedDecimal) (\<lambda>r.
         Inr (r + minOut))))"

subsection \<open>State\<close>

text \<open>Modelled from the spec: the timer of the SDK (\<^verbatim>\<open>os_timer_arm\<close>,
  \<^verbatim>\<open>os_timer_disarm\<close>, \<^verbatim>\<open>os_timer_setfn\<close>) is not part of the repository; the spec
  describes it as "arm once after N time units, invoke callback" and "disarm". Its state is
  disarmed, or armed with a delay and the repeat flag. The callback the driver registers is
  always \<^verbatim>\<open>software_servo_timer_tick\<close> and is not recorded.\<close>

datatype os_timer = Disarmed | Armed int bool

text \<open>Modelled from the spec: pin control and the busy wait belong to the Arduino core and
  the SDK. What the driver does to them is logged in order: \<^verbatim>\<open>digitalWrite\<close> with the
  level (\<open>True\<close> for \<^verbatim>\<open>HIGH\<close>), \<^verbatim>\<open>pinMode\<close> with \<^verbatim>\<open>OUTPUT\<close>, and
  \<^verbatim>\<open>os_delay_us\<close>.\<close>

datatype io_event = DigitalWrite int bool | PinModeOutput int | DelayUs int

record servo_globals =
  software_servo_timer :: os_timer
  software_servo_pins :: "int list"
  software_servo_pulse_lenght :: "int list"
  software_servo_current_servo :: nat
  software_servo_map :: int
  software_servo_next_servo :: "int list"
  software_servo_time_to_next_pulse :: "int list"
  io_log :: "io_event list"

text \<open>The static initialisers of the source.\<close>

definition initial_globals :: servo_globals where
  "initial_globals =
     \<lparr> software_servo_timer = Disarmed,
       software_servo_pins = [-1, -1, -1, -1],
       software_servo_pulse_lenght =
         [DEFAULT_NEUTRAL_PULSE_WIDTH, DEFAULT_NEUTRAL_PULSE_WIDTH,
          DEFAULT_NEUTRAL_PULSE_WIDTH, DEFAULT_NEUTRAL_PULSE_WIDTH],
       software_servo_current_servo = 0,
       software_servo_map = 0,
       software_servo_next_servo = [1, 2, 3, 0],
       software_servo_time_to_next_pulse =
         [REFRESH_INTERVAL, REFRESH_INTERVAL, REFRESH_INTERVAL, REFRESH_INTERVAL],
       io_log = [] \<rparr>"

text \<open>The private members \<^verbatim>\<open>_id\<close>, \<^verbatim>\<open>_attached\<close>, \<^verbatim>\<open>_minUs\<close> and \<^verbatim>\<open>_maxUs\<close>.\<close>

record SoftwareServo =
  s_id :: int
  s_attached :: bool
  s_minUs :: "16 word"
  s_maxUs :: "16 word"

text \<open>The constructor.\<close>

definition new_servo :: SoftwareServo where
  "new_servo =
     \<lparr> s_id = -1, s_attached = False,
       s_minUs = word_of_int DEFAULT_MIN_PULSE_WIDTH,
       s_maxUs = word_of_int DEFAULT_MAX_PULSE_WIDTH \<rparr>"

subsection \<open>The Schedule Builder\<close>

text \<open>The inner loop of \<^verbatim>\<open>find_times_between_pulses\<close> for row \<open>i\<close>, over the values
  of \<^verbatim>\<open>ii\<close> still to come. It carries \<^verbatim>\<open>find\<close> (here \<open>fnd\<close>) and \<^verbatim>\<open>tmp_time\<close>
  and stops at the \<^verbatim>\<open>break\<close>. When no slot is found, the two arrays of the Schedule
  keep what they held.\<close>

fun find_inner :: "nat \<Rightarrow> nat list \<Rightarrow> int \<Rightarrow> int \<Rightarrow> servo_globals \<Rightarrow> int \<times> servo_globals" where
  "find_inner i [] fnd tmp_time g = (fnd, g)"
| "find_inner i (ii # rest) fnd tmp_time g =
     (if software_servo_pins g ! ((ii + i + 1) mod MAX_SERVOS) = -1 \<and> fnd = 0
      then find_inner i rest fnd (tmp_time + REFRESH_INTERVAL) g
      else (1, g\<lparr> software_servo_next_servo :=
                     (software_servo_next_servo g)[i := int ((ii + i + 1) mod MAX_SERVOS)],
                   software_servo_time_to_next_pulse :=
                     (software_servo_time_to_next_pulse g)[i := tmp_time] \<rparr>))"

text \<open>The outer loop, over the rows still to come, carrying \<^verbatim>\<open>finded\<close>.\<close>

fun find_outer :: "nat list \<Rightarrow> int \<Rightarrow> servo_globals \<Rightarrow> int \<times> servo_globals" where
  "find_outer [] finded g = (finded, g)"
| "find_outer (i # rest) finded g =
     (case find_inner i [0..<MAX_SERVOS] 0 REFRESH_INTERVAL g of
        (fnd, g') \<Rightarrow> find_outer rest (finded + fnd) g')"

definition find_times_between_pulses :: "servo_globals \<Rightarrow> int \<times> servo_globals" where
  "find_times_between_pulses g = find_outer [0..<MAX_SERVOS] 0 g"

subsection \<open>The Pulse Emitter\<close>

text \<open>The conversion of an \<^verbatim>\<open>int\<close> to \<^verbatim>\<open>unsigned int\<close>.\<close>

definition to_unsigned :: "int \<Rightarrow> nat" where
  "to_unsigned v = nat (v mod 2 ^ 32)"

text \<open>The timer callback. The second test of its condition is evaluated only when the
  bitmask is not 0.\<close>

definition software_servo_timer_tick :: "servo_globals \<Rightarrow> fault + servo_globals" where
  "software_servo_timer_tick g =
     (let cur = software_servo_current_servo g in
      if software_servo_map g \<noteq> 0 then
        (if cur < MAX_SERVOS then
           (if software_servo_time_to_next_pulse g ! cur \<ge> 0 then
              (let g1 = g\<lparr> software_servo_timer :=
                             Armed (software_servo_time_to_next_pulse g ! cur) True \<rparr>;
                   g2 = (if software_servo_pins g1 ! cur \<ge> 0
                         then g1\<lparr> io_log := io_log g1 @
                                [DigitalWrite (software_servo_pins g1 ! cur) True,
                                 DelayUs (software_servo_pulse_lenght g1 ! cur),
                                 DigitalWrite (software_servo_pins g1 ! cur) False] \<rparr>
                         else g1)
               in Inr (g2\<lparr> software_servo_current_servo :=
                            to_unsigned (software_servo_next_servo g2 ! cur) \<rparr>))
            else Inr (g\<lparr> software_servo_timer := Disarmed \<rparr>))
         else Inl IndexOutOfBounds)
      else Inr (g\<lparr> software_servo_timer := Disarmed \<rparr>))"

subsection \<open>The methods of the class\<close>

text \<open>An index of one of the \<open>MAX_SERVOS\<close> elements of the arrays. The methods index the
  arrays with \<^verbatim>\<open>_id\<close>; outside these bounds the access is undefined behaviour.\<close>

definition in_bounds :: "int \<Rightarrow> bool" where
  "in_bounds i = (0 \<le> i \<and> i < int MAX_SERVOS)"

definition writeMicroseconds ::
  "SoftwareServo \<Rightarrow> servo_globals \<Rightarrow> int \<Rightarrow> fault + (SoftwareServo \<times> servo_globals)" where
  "writeMicroseconds h g val =
     (let v = constrain val (uint (s_minUs h)) (uint (s_maxUs h)) in
      if s_attached h then
        (if in_bounds (s_id h) then
           (let g1 = g\<lparr> software_servo_pulse_lenght :=
                          (software_servo_pulse_lenght g)[nat (s_id h) := v] \<rparr>
            in case find_times_between_pulses g1 of (finded, g2) \<Rightarrow>
               if finded > 0 then
                 (if software_servo_current_servo g2 < MAX_SERVOS then
                    Inr (h, g2\<lparr> software_servo_map :=
                                  software_servo_map g2 OR push_bit (nat (s_id h)) 1,
                                software_servo_timer :=
                                  Armed (software_servo_time_to_next_pulse g2 !
                                           software_servo_current_servo g2) True \<rparr>)
                  else Inl IndexOutOfBounds)
               else
                 Inr (h, g2\<lparr> software_servo_map :=
                               software_servo_map g2 AND NOT (push_bit (nat (s_id h)) 1),
                             software_servo_timer := Disarmed \<rparr>))
         else Inl IndexOutOfBounds)
      else Inr (h, g))"

text \<open>The method \<^verbatim>\<open>write\<close>; the name is a keyword of Isabelle, hence the prefix.\<close>

definition servo_write ::
  "SoftwareServo \<Rightarrow> servo_globals \<Rightarrow> int \<Rightarrow> fault + (SoftwareServo \<times> servo_globals)" where
  "servo_write h g val =
     (if val < 200 then
        and_then (improved_map (constrain val 0 180) 0 180 (uint (s_minUs h)) (uint (s_maxUs h)))
          (\<lambda>v. writeMicroseconds h g v)
      else writeMicroseconds h g val)"

definition readMicroseconds :: "SoftwareServo \<Rightarrow> servo_globals \<Rightarrow> fault + int" where
  "readMicroseconds h g =
     (if s_attached h then
        (if in_bounds (s_id h) then Inr (software_servo_pulse_lenght g ! nat (s_id h))
         else Inl IndexOutOfBounds)
      else Inr 0)"

definition read :: "SoftwareServo \<Rightarrow> servo_globals \<Rightarrow> fault + int" where
  "read h g =
     and_then (readMicroseconds h g)
       (\<lambda>us. improved_map us (uint (s_minUs h)) (uint (s_maxUs h)) 0 180)"

definition attached :: "SoftwareServo \<Rightarrow> bool" where
  "attached h = s_attached h"

definition detach ::
  "SoftwareServo \<Rightarrow> servo_globals \<Rightarrow> fault + (SoftwareServo \<times> servo_globals)" where
  "detach h g =
     (if s_attached h then
        (if in_bounds (s_id h) then
           Inr (h\<lparr> s_id := -1, s_attached := False \<rparr>,
                g\<lparr> software_servo_map :=
                     software_servo_map g AND NOT (push_bit (nat (s_id h)) 1),
                   software_servo_pulse_lenght :=
                     (software_servo_pulse_lenght g)[nat (s_id h) := DEFAULT_NEUTRAL_PULSE_WIDTH] \<rparr>)
         else Inl IndexOutOfBounds)
      else Inr (h, g))"

text \<open>The search of \<^verbatim>\<open>attach\<close> for the first free slot, over the indices still to
  come.\<close>

fun attach_scan ::
  "nat list \<Rightarrow> int \<Rightarrow> int \<Rightarrow> SoftwareServo \<Rightarrow> servo_globals \<Rightarrow> SoftwareServo \<times> servo_globals" where
  "attach_scan [] pin val h g = (h, g)"
| "attach_scan (i # rest) pin val h g =
     (if software_servo_pins g ! i = -1
      then (h\<lparr> s_id := int i \<rparr>,
            g\<lparr> software_servo_pins := (software_servo_pins g)[i := pin],
               software_servo_pulse_lenght := (software_servo_pulse_lenght g)[i := val] \<rparr>)
      else attach_scan rest pin val h g)"

text \<open>The part of \<^verbatim>\<open>attach\<close> after the slot search: the calibration is clamped in
  \<^verbatim>\<open>uint16_t\<close>, the initial value is written, and the pin is returned as a
  \<^verbatim>\<open>uint8_t\<close>.\<close>

definition attach_finish ::
  "SoftwareServo \<Rightarrow> servo_globals \<Rightarrow> int \<Rightarrow> 16 word \<Rightarrow> 16 word \<Rightarrow> int \<Rightarrow>
     fault + (8 word \<times> SoftwareServo \<times> servo_globals)" where
  "attach_finish h g pin minUs maxUs val =
     (let mx = max 250 (min 3000 maxUs);
          mn = max 200 (min mx minUs);
          h1 = h\<lparr> s_maxUs := mx, s_minUs := mn \<rparr>
      in and_then (servo_write h1 g val) (\<lambda>(h2, g2). Inr (word_of_int pin, h2, g2)))"

definition attach ::
  "SoftwareServo \<Rightarrow> servo_globals \<Rightarrow> int \<Rightarrow> 16 word \<Rightarrow> 16 word \<Rightarrow> int \<Rightarrow>
     fault + (8 word \<times> SoftwareServo \<times> servo_globals)" where
  "attach h g pin minUs maxUs val =
     (if \<not> s_attached h then
        (let g1 = g\<lparr> io_log := io_log g @ [DigitalWrite pin False, PinModeOutput pin] \<rparr>
         in case attach_scan [0..<MAX_SERVOS] pin val h g1 of (h1, g2) \<Rightarrow>
            if s_id h1 = -1 then Inr (0, h1, g2)
            else attach_finish (h1\<lparr> s_attached := True \<rparr>) g2 pin minUs maxUs val)
      else attach_finish h g pin minUs maxUs val)"

text \<open>The two shorter overloads.\<close>

definition attach3 ::
  "SoftwareServo \<Rightarrow> servo_globals \<Rightarrow> int \<Rightarrow> 16 word \<Rightarrow> 16 word \<Rightarrow>
     fault + (8 word \<times> SoftwareServo \<times> servo_globals)" where
  "attach3 h g pin minUs maxUs = attach h g pin minUs maxUs DEFAULT_NEUTRAL_PULSE_WIDTH"

definition attach1 ::
  "SoftwareServo \<Rightarrow> servo_globals \<Rightarrow> int \<Rightarrow> fault + (8 word \<times> SoftwareServo \<times> servo_globals)" where
  "attach1 h g pin =
     attach3 h g pin (word_of_int DEFAULT_MIN_PULSE_WIDTH) (word_of_int DEFAULT_MAX_PULSE_WIDTH)"

subsection \<open>Objects held by the sketch\<close>

text \<open>A sketch owns several \<^verbatim>\<open>SoftwareServo\<close> objects. They are kept in a list, and a
  call of \<^verbatim>\<open>attach\<close> on object \<open>k\<close> replaces that object only; \<open>k\<close> has to be an index
  of the list.\<close>

definition attach_on ::
  "nat \<Rightarrow> SoftwareServo list \<Rightarrow> servo_globals \<Rightarrow> int \<Rightarrow> 16 word \<Rightarrow> 16 word \<Rightarrow> int \<Rightarrow>
     fault + (8 word \<times> SoftwareServo list \<times> servo_globals)" where
  "attach_on k hs g pin minUs maxUs val =
     and_then (attach (hs ! k) g pin minUs maxUs val) (\<lambda>(r, h', g'). Inr (r, hs[k := h'], g'))"

subsection \<open>Well-formed states\<close>

text \<open>The four arrays have their declared size, the successor table holds indices of
  the table, and so does the cursor. The static initialisers satisfy this, and every
  operation keeps it.\<close>

definition wf_globals :: "servo_globals \<Rightarrow> bool" where
  "wf_globals g =
     (length (software_servo_pins g) = MAX_SERVOS \<and>
      length (software_servo_pulse_lenght g) = MAX_SERVOS \<and>
      length (software_servo_next_servo g) = MAX_SERVOS \<and>
      length (software_servo_time_to_next_pulse g) = MAX_SERVOS \<and>
      list_all in_bounds (software_servo_next_servo g) \<and>
      software_servo_current_servo g < MAX_SERVOS)"

text \<open>An attached object holds the index of a slot; an object that is not attached holds
  \<open>-1\<close>.\<close>

definition handle_ok :: "SoftwareServo \<Rightarrow> bool" where
  "handle_ok h = (if s_attached h then in_bounds (s_id h) else s_id h = -1)"

text \<open>The two calibration bounds that \<^verbatim>\<open>attach\<close> stores, as functions of its
  arguments.\<close>

definition clamp_max :: "16 word \<Rightarrow> 16 word" where
  "clamp_max maxUs = max 250 (min 3000 maxUs)"

definition clamp_min :: "16 word \<Rightarrow> 16 word \<Rightarrow> 16 word" where
  "clamp_min minUs maxUs = max 200 (min (clamp_max maxUs) minUs)"

subsection \<open>The two directions of the mapping\<close>

text \<open>\<^verbatim>\<open>write\<close> maps an angle to microseconds, \<^verbatim>\<open>read\<close> maps microseconds to an
  angle; both call \<open>improved_map\<close>, with the arguments below. \<open>round_trip\<close> is angle to
  microseconds, back to an angle, and to microseconds again.\<close>

definition angle_to_us :: "int \<Rightarrow> int \<Rightarrow> int \<Rightarrow> fault + int" where
  "angle_to_us min_us max_us a = improved_map a 0 180 min_us max_us"

definition us_to_angle :: "int \<Rightarrow> int \<Rightarrow> int \<Rightarrow> fault + int" where
  "us_to_angle min_us max_us u = improved_map u min_us max_us 0 180"

definition round_trip :: "int \<Rightarrow> int \<Rightarrow> int \<Rightarrow> fault + int" where
  "round_trip min_us max_us a =
     and_then (angle_to_us min_us max_us a) (\<lambda>u.
     and_then (us_to_angle min_us max_us u) (\<lambda>b.
     angle_to_us min_us max_us b))"

text \<open>Division of \<open>n\<close> by \<open>d\<close>, rounded to the nearest integer, halves upwards.\<close>

definition round_div :: "int \<Rightarrow> int \<Rightarrow> int" where
  "round_div n d = (2 * n + d) div (2 * d)"

subsection \<open>Sequences of calls\<close>

text \<open>\<^verbatim>\<open>writeMicroseconds(v)\<close> followed by \<^verbatim>\<open>readMicroseconds()\<close> on the same
  object.\<close>

definition write_then_read :: "SoftwareServo \<Rightarrow> servo_globals \<Rightarrow> int \<Rightarrow> fault + int" where
  "write_then_read h g v =
     and_then (writeMicroseconds h g v) (\<lambda>(h', g'). readMicroseconds h' g')"

text \<open>The object and the globals that \<^verbatim>\<open>attach(5)\<close> leaves, called on a new object in
  the initial state; and the globals after the \<^verbatim>\<open>detach\<close> of that object.\<close>

definition servo_on_slot0 :: SoftwareServo where
  "servo_on_slot0 = \<lparr> s_id = 0, s_attached = True, s_minUs = 1000, s_maxUs = 2000 \<rparr>"

definition table_one_attached :: servo_globals where
  "table_one_attached =
     \<lparr> software_servo_timer = Armed 20 True,
       software_servo_pins = [5, -1, -1, -1],
       software_servo_pulse_lenght = [1500, 1500, 1500, 1500],
       software_servo_current_servo = 0,
       software_servo_map = 1,
       software_servo_next_servo = [0, 0, 0, 0],
       software_servo_time_to_next_pulse = [20, 15, 10, 5],
       io_log = [DigitalWrite 5 False, PinModeOutput 5] \<rparr>"

definition table_one_detached :: servo_globals where
  "table_one_detached = table_one_attached\<lparr> software_servo_map := 0 \<rparr>"

text \<open>A first object is attached to pin 5 and detached.\<close>

definition detach_only_channel :: "fault + (SoftwareServo \<times> servo_globals)" where
  "detach_only_channel =
     and_then (attach1 new_servo initial_globals 5) (\<lambda>(r, h, g). detach h g)"

text \<open>After that, a second object is attached to pin 6.\<close>

definition reattach_scenario :: "fault + (8 word \<times> SoftwareServo \<times> servo_globals)" where
  "reattach_scenario =
     and_then detach_only_channel (\<lambda>(h, g). attach1 new_servo g 6)"

text \<open>After that, the timer fires once.\<close>

definition tick_after_reattach :: "fault + servo_globals" where
  "tick_after_reattach =
     and_then reattach_scenario (\<lambda>(r, h, g). software_servo_timer_tick g)"

text \<open>An object is attached to a pin and detached at once; the globals are returned.\<close>

definition attach_detach :: "servo_globals \<Rightarrow> int \<Rightarrow> fault + servo_globals" where
  "attach_detach g pin =
     and_then (attach1 new_servo g pin) (\<lambda>(r, h, g1).
     and_then (detach h g1) (\<lambda>(h2, g2). Inr g2))"

text \<open>Four objects are attached and detached one after the other, then a fifth is
  attached.\<close>

definition fifth_attach_scenario :: "fault + (8 word \<times> SoftwareServo \<times> servo_globals)" where
  "fifth_attach_scenario =
     and_then (attach_detach initial_globals 1) (\<lambda>g1.
     and_then (attach_detach g1 2) (\<lambda>g2.
     and_then (attach_detach g2 3) (\<lambda>g3.
     and_then (attach_detach g3 4) (\<lambda>g4.
     attach1 new_servo g4 5))))"

text \<open>An object is attached with the calibration \<open>[1500, 1000]\<close>, which \<^verbatim>\<open>attach\<close>
  stores as \<open>[1000, 1000]\<close>; then \<^verbatim>\<open>write(90)\<close>, or \<^verbatim>\<open>read()\<close>.\<close>

definition degenerate_attach :: "fault + (8 word \<times> SoftwareServo \<times> servo_globals)" where
  "degenerate_attach = attach3 new_servo initial_globals 5 1500 1000"

definition degenerate_write :: "fault + (SoftwareServo \<times> servo_globals)" where
  "degenerate_write = and_then degenerate_attach (\<lambda>(r, h, g). servo_write h g 90)"

definition degenerate_read :: "fault + int" where
  "degenerate_read = and_then degenerate_attach (\<lambda>(r, h, g). read h g)"

section \<open>Properties of the model\<close>

subsection \<open>The four indices\<close>

lemma range_MAX_SERVOS: "[0..<MAX_SERVOS] = [0, 1, 2, 3]"
  by (simp add: MAX_SERVOS_def upt_rec)

lemma length4: "length xs = MAX_SERVOS \<Longrightarrow> \<exists>a b c d. xs = [a, b, c, d]"
  by (auto simp: MAX_SERVOS_def length_Suc_conv numeral_eq_Suc)

lemma less4: "(i::nat) < MAX_SERVOS \<Longrightarrow> i = 0 \<or> i = 1 \<or> i = 2 \<or> i = 3"
  unfolding MAX_SERVOS_def by arith

lemma all_less4: "(\<forall>j<4::nat. P j) = (P 0 \<and> P 1 \<and> P 2 \<and> P 3)"
proof
  assume "\<forall>j<4. P j" then show "P 0 \<and> P 1 \<and> P 2 \<and> P 3" by simp
next
  assume h: "P 0 \<and> P 1 \<and> P 2 \<and> P 3"
  show "\<forall>j<4. P j"
  proof (intro allI impI)
    fix j :: nat assume "j < 4"
    then have "j = 0 \<or> j = 1 \<or> j = 2 \<or> j = 3" by arith
    with h show "P j" by blast
  qed
qed

lemma upt_split: "i < n \<Longrightarrow> [0..<n] = [0..<i] @ i # [Suc i..<n]"
  using upt_add_eq_append [of 0 i "n - i"] by (simp add: upt_conv_Cons)

subsection \<open>The Schedule Builder: what it changes\<close>

lemma find_inner_frame:
  "find_inner i iis fnd t g = (f', g') \<Longrightarrow>
     software_servo_pins g' = software_servo_pins g \<and>
     software_servo_pulse_lenght g' = software_servo_pulse_lenght g \<and>
     software_servo_map g' = software_servo_map g \<and>
     software_servo_current_servo g' = software_servo_current_servo g \<and>
     software_servo_timer g' = software_servo_timer g \<and>
     io_log g' = io_log g \<and>
     length (software_servo_next_servo g') = length (software_servo_next_servo g) \<and>
     length (software_servo_time_to_next_pulse g') = length (software_servo_time_to_next_pulse g)"
  by (induction iis arbitrary: fnd t) (auto split: if_splits)

lemma find_inner_other_rows:
  "find_inner i iis fnd t g = (f', g') \<Longrightarrow> k \<noteq> i \<Longrightarrow>
     software_servo_next_servo g' ! k = software_servo_next_servo g ! k \<and>
     software_servo_time_to_next_pulse g' ! k = software_servo_time_to_next_pulse g ! k"
  by (induction iis arbitrary: fnd t) (auto split: if_splits)

lemma find_inner_next_in_bounds:
  "find_inner i iis fnd t g = (f', g') \<Longrightarrow> list_all in_bounds (software_servo_next_servo g) \<Longrightarrow>
     list_all in_bounds (software_servo_next_servo g')"
proof (induction iis arbitrary: fnd t)
  case Nil
  then show ?case by simp
next
  case (Cons ii rest)
  have b: "in_bounds (int ((ii + i + 1) mod MAX_SERVOS))"
    by (simp add: in_bounds_def MAX_SERVOS_def)
  have u: "\<And>xs v. list_all in_bounds xs \<Longrightarrow> in_bounds v \<Longrightarrow> list_all in_bounds (xs[i := v])"
    by (auto simp: list_all_iff dest: set_update_subset_insert [THEN subsetD])
  from Cons show ?case using b u by (auto split: if_splits)
qed

lemma find_outer_frame:
  "find_outer rows finded g = (f', g') \<Longrightarrow>
     software_servo_pins g' = software_servo_pins g \<and>
     software_servo_pulse_lenght g' = software_servo_pulse_lenght g \<and>
     software_servo_map g' = software_servo_map g \<and>
     software_servo_current_servo g' = software_servo_current_servo g \<and>
     software_servo_timer g' = software_servo_timer g \<and>
     io_log g' = io_log g \<and>
     length (software_servo_next_servo g') = length (software_servo_next_servo g) \<and>
     length (software_servo_time_to_next_pulse g') = length (software_servo_time_to_next_pulse g)"
proof (induction rows arbitrary: finded g)
  case Nil
  then show ?case by simp
next
  case (Cons i rest)
  obtain f1 g1 where s: "find_inner i [0..<MAX_SERVOS] 0 REFRESH_INTERVAL g = (f1, g1)"
    by (cases "find_inner i [0..<MAX_SERVOS] 0 REFRESH_INTERVAL g")
  with Cons.prems have r: "find_outer rest (finded + f1) g1 = (f', g')" by simp
  from find_inner_frame [OF s] Cons.IH [OF r] show ?case by simp
qed

lemma find_outer_next_in_bounds:
  "find_outer rows finded g = (f', g') \<Longrightarrow> list_all in_bounds (software_servo_next_servo g) \<Longrightarrow>
     list_all in_bounds (software_servo_next_servo g')"
proof (induction rows arbitrary: finded g)
  case Nil
  then show ?case by simp
next
  case (Cons i rest)
  obtain f1 g1 where s: "find_inner i [0..<MAX_SERVOS] 0 REFRESH_INTERVAL g = (f1, g1)"
    by (cases "find_inner i [0..<MAX_SERVOS] 0 REFRESH_INTERVAL g")
  with Cons.prems have r: "find_outer rest (finded + f1) g1 = (f', g')" by simp
  from find_inner_next_in_bounds [OF s Cons.prems(2)] Cons.IH [OF r] show ?case by simp
qed

lemma find_outer_other_rows:
  "find_outer rows finded g = (f', g') \<Longrightarrow> k \<notin> set rows \<Longrightarrow>
     software_servo_next_servo g' ! k = software_servo_next_servo g ! k \<and>
     software_servo_time_to_next_pulse g' ! k = software_servo_time_to_next_pulse g ! k"
proof (induction rows arbitrary: finded g)
  case Nil
  then show ?case by simp
next
  case (Cons i rest)
  obtain f1 g1 where s: "find_inner i [0..<MAX_SERVOS] 0 REFRESH_INTERVAL g = (f1, g1)"
    by (cases "find_inner i [0..<MAX_SERVOS] 0 REFRESH_INTERVAL g")
  with Cons.prems have r: "find_outer rest (finded + f1) g1 = (f', g')" by simp
  from Cons.prems have k: "k \<noteq> i" "k \<notin> set rest" by simp_all
  from find_inner_other_rows [OF s k(1)] Cons.IH [OF r k(2)] show ?case by simp
qed

lemma find_times_frame:
  "find_times_between_pulses g = (finded, g') \<Longrightarrow>
     software_servo_pins g' = software_servo_pins g \<and>
     software_servo_pulse_lenght g' = software_servo_pulse_lenght g \<and>
     software_servo_map g' = software_servo_map g \<and>
     software_servo_current_servo g' = software_servo_current_servo g \<and>
     software_servo_timer g' = software_servo_timer g \<and>
     io_log g' = io_log g \<and>
     length (software_servo_next_servo g') = length (software_servo_next_servo g) \<and>
     length (software_servo_time_to_next_pulse g') = length (software_servo_time_to_next_pulse g)"
  unfolding find_times_between_pulses_def by (rule find_outer_frame)

lemma find_times_wf:
  "find_times_between_pulses g = (finded, g') \<Longrightarrow> wf_globals g \<Longrightarrow> wf_globals g'"
  using find_times_frame [of g finded g'] find_outer_next_in_bounds [of "[0..<MAX_SERVOS]" 0 g finded g']
  by (simp add: wf_globals_def find_times_between_pulses_def)

subsection \<open>The Schedule Builder: one assigned slot\<close>

lemma find_inner_single:
  assumes len: "length (software_servo_pins g) = MAX_SERVOS" and i: "i < MAX_SERVOS"
    and act: "software_servo_pins g ! i \<noteq> -1"
    and rest: "\<forall>j<MAX_SERVOS. j \<noteq> i \<longrightarrow> software_servo_pins g ! j = -1"
  shows "find_inner i [0..<MAX_SERVOS] 0 REFRESH_INTERVAL g =
          (1, g\<lparr> software_servo_next_servo := (software_servo_next_servo g)[i := int i],
                 software_servo_time_to_next_pulse :=
                   (software_servo_time_to_next_pulse g)[i := int MAX_SERVOS * REFRESH_INTERVAL] \<rparr>)"
proof -
  from length4 [OF len] obtain a b c d where p: "software_servo_pins g = [a, b, c, d]"
    by blast
  from rest have r: "(0 \<noteq> i \<longrightarrow> a = -1) \<and> (1 \<noteq> i \<longrightarrow> b = -1) \<and> (2 \<noteq> i \<longrightarrow> c = -1) \<and> (3 \<noteq> i \<longrightarrow> d = -1)"
    by (simp add: MAX_SERVOS_def all_less4 p)
  from i have "i = 0 \<or> i = 1 \<or> i = 2 \<or> i = 3" by (rule less4)
  then consider "i = 0" | "i = 1" | "i = 2" | "i = 3" by blast
  then show ?thesis
  proof cases
    case 1
    with r act p have "software_servo_pins g = [a, -1, -1, -1]" "a \<noteq> -1" by simp_all
    then show ?thesis unfolding range_MAX_SERVOS 1
      by (simp add: MAX_SERVOS_def REFRESH_INTERVAL_def)
  next
    case 2
    with r act p have "software_servo_pins g = [-1, b, -1, -1]" "b \<noteq> -1" by simp_all
    then show ?thesis unfolding range_MAX_SERVOS 2
      by (simp add: MAX_SERVOS_def REFRESH_INTERVAL_def)
  next
    case 3
    with r act p have "software_servo_pins g = [-1, -1, c, -1]" "c \<noteq> -1" by simp_all
    then show ?thesis unfolding range_MAX_SERVOS 3
      by (simp add: MAX_SERVOS_def REFRESH_INTERVAL_def)
  next
    case 4
    with r act p have "software_servo_pins g = [-1, -1, -1, d]" "d \<noteq> -1" by simp_all
    then show ?thesis unfolding range_MAX_SERVOS 4
      by (simp add: MAX_SERVOS_def REFRESH_INTERVAL_def)
  qed
qed

lemma find_outer_single:
  assumes len: "length (software_servo_pins g) = MAX_SERVOS"
    and ln: "length (software_servo_next_servo g) = MAX_SERVOS"
    and lt: "length (software_servo_time_to_next_pulse g) = MAX_SERVOS"
    and i: "i < MAX_SERVOS"
    and act: "software_servo_pins g ! i \<noteq> -1"
    and rest: "\<forall>j<MAX_SERVOS. j \<noteq> i \<longrightarrow> software_servo_pins g ! j = -1"
    and run: "find_outer rows finded g = (f', g')"
    and mem: "i \<in> set rows"
  shows "software_servo_next_servo g' ! i = int i \<and>
         software_servo_time_to_next_pulse g' ! i = int MAX_SERVOS * REFRESH_INTERVAL"
  using len ln lt act rest run mem
proof (induction rows arbitrary: finded g)
  case Nil
  then show ?case by simp
next
  case (Cons r rows)
  obtain f1 g1 where s: "find_inner r [0..<MAX_SERVOS] 0 REFRESH_INTERVAL g = (f1, g1)"
    by (cases "find_inner r [0..<MAX_SERVOS] 0 REFRESH_INTERVAL g")
  with Cons.prems have run': "find_outer rows (finded + f1) g1 = (f', g')" by simp
  note fr = find_inner_frame [OF s]
  show ?case
  proof (cases "i \<in> set rows")
    case True
    show ?thesis
      by (rule Cons.IH [OF _ _ _ _ _ run' True]) (use fr Cons.prems in simp_all)
  next
    case False
    with Cons.prems have ri: "r = i" by simp
    from find_inner_single [OF Cons.prems(1) i Cons.prems(4) Cons.prems(5)] s ri
    have g1: "g1 = g\<lparr> software_servo_next_servo := (software_servo_next_servo g)[i := int i],
                 software_servo_time_to_next_pulse :=
                   (software_servo_time_to_next_pulse g)[i := int MAX_SERVOS * REFRESH_INTERVAL] \<rparr>"
      by simp
    from find_outer_other_rows [OF run' False] g1 i Cons.prems(2,3) show ?thesis by simp
  qed
qed

subsection \<open>The Schedule Builder: its count\<close>

lemma find_inner_fst:
  "fst (find_inner i iis 0 t g) =
     (if \<exists>ii\<in>set iis. software_servo_pins g ! ((ii + i + 1) mod MAX_SERVOS) \<noteq> -1 then 1 else 0)"
  by (induction iis arbitrary: t) auto

lemma cyclic_scan_reaches:
  assumes "j < MAX_SERVOS" "i < MAX_SERVOS"
  shows "\<exists>ii\<in>set [0..<MAX_SERVOS]. (ii + i + 1) mod MAX_SERVOS = j"
proof -
  let ?ii = "(j + 3 - i) mod MAX_SERVOS"
  have "(?ii + i + 1) mod MAX_SERVOS = (j + 3 - i + i + 1) mod MAX_SERVOS"
    by (metis (no_types, lifting) add.assoc mod_add_left_eq)
  also have "\<dots> = j" using assms by (simp add: MAX_SERVOS_def)
  finally have "(?ii + i + 1) mod MAX_SERVOS = j" .
  moreover have "?ii \<in> set [0..<MAX_SERVOS]" by (simp add: MAX_SERVOS_def)
  ultimately show ?thesis by blast
qed

lemma find_inner_count:
  assumes "i < MAX_SERVOS"
  shows "fst (find_inner i [0..<MAX_SERVOS] 0 t g) =
           (if \<exists>j<MAX_SERVOS. software_servo_pins g ! j \<noteq> -1 then 1 else 0)"
proof -
  have "(\<exists>ii\<in>set [0..<MAX_SERVOS]. software_servo_pins g ! ((ii + i + 1) mod MAX_SERVOS) \<noteq> -1) =
        (\<exists>j<MAX_SERVOS. software_servo_pins g ! j \<noteq> -1)"
  proof
    assume "\<exists>ii\<in>set [0..<MAX_SERVOS]. software_servo_pins g ! ((ii + i + 1) mod MAX_SERVOS) \<noteq> -1"
    then obtain ii where "software_servo_pins g ! ((ii + i + 1) mod MAX_SERVOS) \<noteq> -1" by blast
    moreover have "(ii + i + 1) mod MAX_SERVOS < MAX_SERVOS" by (simp add: MAX_SERVOS_def)
    ultimately show "\<exists>j<MAX_SERVOS. software_servo_pins g ! j \<noteq> -1" by blast
  next
    assume "\<exists>j<MAX_SERVOS. software_servo_pins g ! j \<noteq> -1"
    then obtain j where j: "j < MAX_SERVOS" "software_servo_pins g ! j \<noteq> -1" by blast
    from cyclic_scan_reaches [OF j(1) assms] j(2)
    show "\<exists>ii\<in>set [0..<MAX_SERVOS]. software_servo_pins g ! ((ii + i + 1) mod MAX_SERVOS) \<noteq> -1"
      by auto
  qed
  then show ?thesis by (simp only: find_inner_fst)
qed

lemma find_outer_count:
  assumes "\<forall>i\<in>set rows. i < MAX_SERVOS"
  shows "fst (find_outer rows finded g) =
           finded + (if \<exists>j<MAX_SERVOS. software_servo_pins g ! j \<noteq> -1 then int (length rows) else 0)"
  using assms
proof (induction rows arbitrary: finded g)
  case Nil
  then show ?case by simp
next
  case (Cons i rest)
  obtain f1 g1 where s: "find_inner i [0..<MAX_SERVOS] 0 REFRESH_INTERVAL g = (f1, g1)"
    by (cases "find_inner i [0..<MAX_SERVOS] 0 REFRESH_INTERVAL g")
  from Cons.prems have i: "i < MAX_SERVOS" and r: "\<forall>i\<in>set rest. i < MAX_SERVOS" by simp_all
  from find_inner_count [OF i, of REFRESH_INTERVAL g] s
  have f1: "f1 = (if \<exists>j<MAX_SERVOS. software_servo_pins g ! j \<noteq> -1 then 1 else 0)" by simp
  from find_inner_frame [OF s] have p: "software_servo_pins g1 = software_servo_pins g" by simp
  from Cons.IH [OF r, of "finded + f1" g1] s f1 p show ?case by simp
qed

text \<open>The count that \<^verbatim>\<open>find_times_between_pulses\<close> returns is \<open>MAX_SERVOS\<close> as soon as one
  slot has a pin, and 0 when none has: it is not the number of slots with a pin.\<close>

lemma find_times_count:
  "fst (find_times_between_pulses g) =
     (if \<exists>j<MAX_SERVOS. software_servo_pins g ! j \<noteq> -1 then int MAX_SERVOS else 0)"
  using find_outer_count [of "[0..<MAX_SERVOS]" 0 g]
  by (auto simp: find_times_between_pulses_def)

subsection \<open>Rounding in the mapping helper\<close>

lemma c_div_nonneg: "0 \<le> a \<Longrightarrow> 0 < b \<Longrightarrow> c_div a b = Inr (a div b)"
  by (simp add: c_div_def)

lemma half_up: "0 < d \<Longrightarrow> ((n * 2) div d + 1) div 2 = round_div n d"
proof -
  assume d: "0 < d"
  have "(2 * n + d) div (d * 2) = ((2 * n + d) div d) div 2"
    using d by (simp add: zdiv_zmult2_eq)
  moreover have "(n * 2 + d) div d = (n * 2) div d + 1"
    using d by (simp add: div_add_self2)
  ultimately show ?thesis by (simp add: round_div_def mult.commute)
qed

lemma round_div_unique:
  assumes "0 < d" "2 * d * q \<le> 2 * n + d" "2 * n + d < 2 * d * q + 2 * d"
  shows "round_div n d = q"
proof -
  have "2 * n + d = (2 * d) * q + (2 * n + d - 2 * d * q)" by simp
  moreover have "0 \<le> 2 * n + d - 2 * d * q" using assms by simp
  moreover have "2 * n + d - 2 * d * q < 2 * d" using assms by simp
  ultimately show ?thesis unfolding round_div_def by (rule int_div_pos_eq)
qed

lemma round_div_bounds:
  assumes "0 < d"
  shows "2 * d * round_div n d \<le> 2 * n + d \<and> 2 * n + d < 2 * d * round_div n d + 2 * d"
proof -
  have m: "0 \<le> (2 * n + d) mod (2 * d) \<and> (2 * n + d) mod (2 * d) < 2 * d"
    using assms by simp
  have "2 * d * ((2 * n + d) div (2 * d)) + (2 * n + d) mod (2 * d) = 2 * n + d"
    by (rule mult_div_mod_eq)
  with m show ?thesis unfolding round_div_def by linarith
qed

lemma round_div_nonneg: "0 < d \<Longrightarrow> 0 \<le> n \<Longrightarrow> 0 \<le> round_div n d"
  by (simp add: round_div_def pos_imp_zdiv_nonneg_iff)

text \<open>On a non-empty input range, and for a value and an output range that do not make the
  dividend negative, the helper is the rounded quotient.\<close>

lemma improved_map_round_div:
  assumes "minIn < maxIn" "minIn \<le> v" "minOut \<le> maxOut"
  shows "improved_map v minIn maxIn minOut maxOut =
           Inr (round_div ((v - minIn) * (maxOut - minOut)) (maxIn - minIn) + minOut)"
proof -
  define n where "n = (v - minIn) * (maxOut - minOut)"
  define d where "d = maxIn - minIn"
  have d: "0 < d" using assms by (simp add: d_def)
  have n: "0 \<le> n" using assms by (simp add: n_def)
  have q: "0 \<le> (n * 2) div d" using d n by (simp add: pos_imp_zdiv_nonneg_iff)
  have "improved_map v minIn maxIn minOut maxOut =
          and_then (c_div (n * 2) d) (\<lambda>q. and_then (c_div (q + 1) 2) (\<lambda>r. Inr (r + minOut)))"
    by (simp add: improved_map_def Let_def n_def d_def)
  also have "\<dots> = Inr (((n * 2) div d + 1) div 2 + minOut)"
    using d n q by (simp add: and_then_def c_div_nonneg)
  finally show ?thesis using d by (simp add: half_up n_def d_def)
qed

lemma improved_map_empty_range:
  "improved_map v m m minOut maxOut = Inl DivisionByZero"
  by (simp add: improved_map_def Let_def and_then_def c_div_def)

lemma improved_map_from_angle:
  "\<exists>u. improved_map a 0 180 lo hi = Inr u"
  by (simp add: improved_map_def Let_def and_then_def c_div_def)

text \<open>The dividends of the helper fit the 32-bit \<^verbatim>\<open>int\<close>: for an angle and an output
  range of 16 bits, and for a difference of two 16-bit values and the output range
  \<open>[0, 180]\<close>.\<close>

lemma angle_product_fits:
  fixes a r :: int
  assumes "0 \<le> a" "a \<le> 180" "0 \<le> r" "r \<le> 65535"
  shows "0 \<le> a * r * 2 \<and> a * r * 2 < 2 ^ 31"
proof -
  have "a * r \<le> 180 * 65535" using assms by (intro mult_mono) simp_all
  moreover have "0 \<le> a * r" using assms by simp
  ultimately show ?thesis by simp
qed

lemma width_product_fits:
  fixes d :: int
  assumes "- 65535 \<le> d" "d \<le> 65535"
  shows "- (2 ^ 31) \<le> d * 180 * 2 \<and> d * 180 * 2 < 2 ^ 31"
  using assms by simp

lemma round_trip_core:
  fixes a R :: int
  assumes R: "0 < R"
  defines "u \<equiv> round_div (a * R) 180"
  defines "b \<equiv> round_div (u * 180) R"
  shows "round_div (b * R) 180 = u"
proof -
  define m where "m = a * R"
  define p where "p = b * R"
  have "2 * 180 * u \<le> 2 * (a * R) + 180 \<and> 2 * (a * R) + 180 < 2 * 180 * u + 2 * 180"
    unfolding u_def by (rule round_div_bounds) simp
  then have u1: "360 * u \<le> 2 * m + 180" and u2: "2 * m + 180 < 360 * u + 360"
    by (simp_all add: m_def)
  have "2 * R * b \<le> 2 * (u * 180) + R \<and> 2 * (u * 180) + R < 2 * R * b + 2 * R"
    unfolding b_def by (rule round_div_bounds) (rule R)
  moreover have "2 * R * b = 2 * p" by (simp add: p_def)
  ultimately have b1: "2 * p \<le> 360 * u + R" and b2: "360 * u + R < 2 * p + 2 * R"
    by simp_all
  show ?thesis
  proof (cases "R \<le> 180")
    case True
    have lo: "360 * u \<le> 2 * p + 180" using b2 True by linarith
    have hi: "2 * p + 180 < 360 * u + 360"
    proof (cases "R = 180")
      case True
      then have pb: "p = 180 * b" by (simp add: p_def)
      with b1 True have "360 * b \<le> 360 * u + 180" by simp
      then have "b \<le> u" by linarith
      with pb show ?thesis by simp
    next
      case False
      with True b1 show ?thesis by linarith
    qed
    have "round_div p 180 = u"
      by (rule round_div_unique) (use lo hi in simp_all)
    then show ?thesis by (simp add: p_def)
  next
    case False
    have "round_div (u * 180) R = a"
    proof (rule round_div_unique)
      show "0 < R" by (rule R)
      have c: "2 * R * a = 2 * m" by (simp add: m_def)
      show "2 * R * a \<le> 2 * (u * 180) + R" unfolding c using u2 False by linarith
      show "2 * (u * 180) + R < 2 * R * a + 2 * R" unfolding c using u1 False by linarith
    qed
    then show ?thesis by (simp add: u_def b_def)
  qed
qed

subsection \<open>The Pulse Emitter\<close>

lemma timer_tick_total:
  "software_servo_current_servo g < MAX_SERVOS \<Longrightarrow> \<exists>g'. software_servo_timer_tick g = Inr g'"
  by (simp add: software_servo_timer_tick_def Let_def)

lemma timer_tick_idle:
  "software_servo_map g = 0 \<Longrightarrow>
     software_servo_timer_tick g = Inr (g\<lparr> software_servo_timer := Disarmed \<rparr>)"
  by (simp add: software_servo_timer_tick_def Let_def)

lemma to_unsigned_in_bounds: "in_bounds v \<Longrightarrow> to_unsigned v < MAX_SERVOS"
  by (simp add: in_bounds_def to_unsigned_def MAX_SERVOS_def nat_less_iff)

lemma timer_tick_wf:
  assumes "wf_globals g" "software_servo_timer_tick g = Inr g'"
  shows "wf_globals g'"
proof -
  from assms(1) have "in_bounds (software_servo_next_servo g ! software_servo_current_servo g)"
    by (simp add: wf_globals_def list_all_length)
  then have "to_unsigned (software_servo_next_servo g ! software_servo_current_servo g) < MAX_SERVOS"
    by (rule to_unsigned_in_bounds)
  with assms show ?thesis
    by (auto simp: software_servo_timer_tick_def Let_def wf_globals_def split: if_splits)
qed

subsection \<open>Writing a pulse width\<close>

lemma constrain_is_clamp: "low \<le> high \<Longrightarrow> constrain amt low high = max low (min high amt)"
  by (simp add: constrain_def max_def min_def)

lemma constrain_in_range:
  "low \<le> high \<Longrightarrow> low \<le> constrain amt low high \<and> constrain amt low high \<le> high"
  by (simp add: constrain_def)

lemma writeMicroseconds_unattached:
  "\<not> s_attached h \<Longrightarrow> writeMicroseconds h g v = Inr (h, g)"
  by (simp add: writeMicroseconds_def)

lemma writeMicroseconds_attached:
  assumes att: "s_attached h" and ib: "in_bounds (s_id h)"
    and cur: "software_servo_current_servo g < MAX_SERVOS"
  shows "\<exists>g'. writeMicroseconds h g v = Inr (h, g') \<and>
           software_servo_pins g' = software_servo_pins g \<and>
           software_servo_pulse_lenght g' =
             (software_servo_pulse_lenght g)
               [nat (s_id h) := constrain v (uint (s_minUs h)) (uint (s_maxUs h))] \<and>
           software_servo_current_servo g' = software_servo_current_servo g \<and>
           io_log g' = io_log g \<and>
           (wf_globals g \<longrightarrow> wf_globals g')"
proof -
  let ?c = "constrain v (uint (s_minUs h)) (uint (s_maxUs h))"
  let ?g1 = "g\<lparr> software_servo_pulse_lenght := (software_servo_pulse_lenght g)[nat (s_id h) := ?c] \<rparr>"
  obtain finded g2 where ft: "find_times_between_pulses ?g1 = (finded, g2)"
    by (cases "find_times_between_pulses ?g1")
  note fr = find_times_frame [OF ft]
  have w1: "wf_globals g \<Longrightarrow> wf_globals ?g1" by (simp add: wf_globals_def)
  have w2: "wf_globals g \<Longrightarrow> wf_globals g2" using find_times_wf [OF ft] w1 by simp
  have w3: "\<And>m t. wf_globals g2 \<Longrightarrow> wf_globals (g2\<lparr> software_servo_map := m, software_servo_timer := t \<rparr>)"
    by (simp add: wf_globals_def)
  from fr cur have cur2: "software_servo_current_servo g2 < MAX_SERVOS" by simp
  show ?thesis
    using att ib ft fr cur2 w2 w3
    by (simp add: writeMicroseconds_def Let_def)
qed

lemma writeMicroseconds_no_division: "writeMicroseconds h g v \<noteq> Inl DivisionByZero"
  by (simp add: writeMicroseconds_def Let_def split: prod.splits)

lemma servo_write_as_writeMicroseconds:
  "\<exists>u. servo_write h g v = writeMicroseconds h g u"
proof (cases "v < 200")
  case True
  obtain u where "improved_map (constrain v 0 180) 0 180 (uint (s_minUs h)) (uint (s_maxUs h)) = Inr u"
    using improved_map_from_angle by blast
  with True show ?thesis by (auto simp: servo_write_def and_then_def)
next
  case False
  then show ?thesis by (auto simp: servo_write_def)
qed

lemma servo_write_unattached:
  "\<not> s_attached h \<Longrightarrow> servo_write h g v = Inr (h, g)"
  using servo_write_as_writeMicroseconds [of h g v] by (auto simp: writeMicroseconds_unattached)

lemma servo_write_attached:
  assumes att: "s_attached h" and ib: "in_bounds (s_id h)"
    and cur: "software_servo_current_servo g < MAX_SERVOS"
  shows "\<exists>g'. servo_write h g v = Inr (h, g') \<and>
           software_servo_pins g' = software_servo_pins g \<and>
           length (software_servo_pulse_lenght g') = length (software_servo_pulse_lenght g) \<and>
           (\<forall>k. k \<noteq> nat (s_id h) \<longrightarrow>
                software_servo_pulse_lenght g' ! k = software_servo_pulse_lenght g ! k) \<and>
           software_servo_current_servo g' = software_servo_current_servo g \<and>
           io_log g' = io_log g \<and>
           (wf_globals g \<longrightarrow> wf_globals g')"
proof -
  obtain u where u: "servo_write h g v = writeMicroseconds h g u"
    using servo_write_as_writeMicroseconds by blast
  from writeMicroseconds_attached [OF att ib cur, of u] u show ?thesis by auto
qed

text \<open>\<^verbatim>\<open>write\<close> calls the helper with the input range \<open>[0, 180]\<close>: its divisor is 180,
  whatever the calibration.\<close>

lemma servo_write_no_division: "servo_write h g v \<noteq> Inl DivisionByZero"
proof -
  obtain u where "servo_write h g v = writeMicroseconds h g u"
    using servo_write_as_writeMicroseconds by blast
  then show ?thesis by (simp add: writeMicroseconds_no_division)
qed

subsection \<open>Reading\<close>

lemma readMicroseconds_unattached: "\<not> s_attached h \<Longrightarrow> readMicroseconds h g = Inr 0"
  by (simp add: readMicroseconds_def)

lemma read_unattached:
  "\<not> s_attached h \<Longrightarrow> read h g = improved_map 0 (uint (s_minUs h)) (uint (s_maxUs h)) 0 180"
  by (simp add: read_def readMicroseconds_def and_then_def)

text \<open>On an object that is not attached, \<^verbatim>\<open>write\<close> and \<^verbatim>\<open>writeMicroseconds\<close> return
  with the object and the globals as they were, and \<^verbatim>\<open>readMicroseconds\<close> returns 0.\<close>

lemma unattached_write_and_readMicroseconds:
  assumes "\<not> s_attached h"
  shows "servo_write h g v = Inr (h, g) \<and> writeMicroseconds h g v = Inr (h, g) \<and>
         readMicroseconds h g = Inr 0"
  using assms
  by (simp add: servo_write_unattached writeMicroseconds_unattached readMicroseconds_unattached)

text \<open>\<^verbatim>\<open>read\<close> calls the helper with the calibration as input range: on a well-formed
  object it divides by zero exactly when the two bounds are equal.\<close>

lemma read_division_by_zero:
  assumes "handle_ok h"
  shows "(read h g = Inl DivisionByZero) = (s_minUs h = s_maxUs h)"
proof -
  have "\<exists>us. readMicroseconds h g = Inr us"
    using assms by (cases "s_attached h") (simp_all add: readMicroseconds_def handle_ok_def)
  then obtain us where us: "readMicroseconds h g = Inr us" by blast
  have "(improved_map us (uint (s_minUs h)) (uint (s_maxUs h)) 0 180 = Inl DivisionByZero) =
        (uint (s_maxUs h) - uint (s_minUs h) = 0)"
    by (simp add: improved_map_def Let_def and_then_def c_div_def)
  moreover have "(uint (s_maxUs h) - uint (s_minUs h) = 0) = (s_minUs h = s_maxUs h)"
    by (auto simp: word_uint_eq_iff)
  ultimately show ?thesis using us by (simp add: read_def and_then_def)
qed

text \<open>The mapping of \<^verbatim>\<open>write\<close> is \<open>angle_to_us\<close>, that of \<^verbatim>\<open>read\<close> is
  \<open>us_to_angle\<close>, both with the calibration of the object.\<close>

lemma servo_write_maps_angle:
  "v < 200 \<Longrightarrow>
     servo_write h g v =
       and_then (angle_to_us (uint (s_minUs h)) (uint (s_maxUs h)) (constrain v 0 180))
         (writeMicroseconds h g)"
  by (simp add: servo_write_def angle_to_us_def)

lemma read_maps_width:
  "read h g = and_then (readMicroseconds h g) (us_to_angle (uint (s_minUs h)) (uint (s_maxUs h)))"
proof -
  have "us_to_angle (uint (s_minUs h)) (uint (s_maxUs h)) =
          (\<lambda>us. improved_map us (uint (s_minUs h)) (uint (s_maxUs h)) 0 180)"
    by (rule ext) (simp add: us_to_angle_def)
  then show ?thesis by (simp add: read_def)
qed

subsection \<open>Attaching\<close>

lemma attach_scan_none:
  "\<forall>j\<in>set idxs. software_servo_pins g ! j \<noteq> -1 \<Longrightarrow> attach_scan idxs pin v h g = (h, g)"
  by (induction idxs) simp_all

lemma attach_scan_first:
  "\<forall>j\<in>set pre. software_servo_pins g ! j \<noteq> -1 \<Longrightarrow> software_servo_pins g ! i = -1 \<Longrightarrow>
     attach_scan (pre @ i # post) pin v h g =
       (h\<lparr> s_id := int i \<rparr>,
        g\<lparr> software_servo_pins := (software_servo_pins g)[i := pin],
           software_servo_pulse_lenght := (software_servo_pulse_lenght g)[i := v] \<rparr>)"
  by (induction pre) simp_all

lemma attach_full:
  assumes "\<not> s_attached h" "s_id h = -1"
    and "\<forall>j<MAX_SERVOS. software_servo_pins g ! j \<noteq> -1"
  shows "attach h g pin minUs maxUs v =
           Inr (0, h, g\<lparr> io_log := io_log g @ [DigitalWrite pin False, PinModeOutput pin] \<rparr>)"
proof -
  let ?g1 = "g\<lparr> io_log := io_log g @ [DigitalWrite pin False, PinModeOutput pin] \<rparr>"
  have "attach_scan [0..<MAX_SERVOS] pin v h ?g1 = (h, ?g1)"
    by (rule attach_scan_none) (use assms(3) in simp)
  with assms(1,2) show ?thesis by (simp add: attach_def Let_def)
qed

lemma attach_free:
  assumes na: "\<not> s_attached h" and wf: "wf_globals g"
    and i: "i < MAX_SERVOS" and free: "software_servo_pins g ! i = -1"
    and low: "\<forall>j<i. software_servo_pins g ! j \<noteq> -1"
  shows "\<exists>g'. attach h g pin minUs maxUs v =
                 Inr (word_of_int pin,
                      h\<lparr> s_id := int i, s_attached := True,
                         s_maxUs := clamp_max maxUs, s_minUs := clamp_min minUs maxUs \<rparr>, g') \<and>
              software_servo_pins g' = (software_servo_pins g)[i := pin] \<and>
              length (software_servo_pulse_lenght g') = MAX_SERVOS \<and>
              (\<forall>k. k \<noteq> i \<longrightarrow> software_servo_pulse_lenght g' ! k = software_servo_pulse_lenght g ! k) \<and>
              io_log g' = io_log g @ [DigitalWrite pin False, PinModeOutput pin] \<and>
              wf_globals g'"
proof -
  let ?g1 = "g\<lparr> io_log := io_log g @ [DigitalWrite pin False, PinModeOutput pin] \<rparr>"
  let ?g2 = "?g1\<lparr> software_servo_pins := (software_servo_pins ?g1)[i := pin],
                  software_servo_pulse_lenght := (software_servo_pulse_lenght ?g1)[i := v] \<rparr>"
  let ?h2 = "h\<lparr> s_id := int i, s_attached := True,
                 s_maxUs := clamp_max maxUs, s_minUs := clamp_min minUs maxUs \<rparr>"
  have sc: "attach_scan [0..<MAX_SERVOS] pin v h ?g1 = (h\<lparr> s_id := int i \<rparr>, ?g2)"
    unfolding upt_split [OF i] by (rule attach_scan_first) (use free low in simp_all)
  have wf2: "wf_globals ?g2" using wf by (simp add: wf_globals_def)
  have "s_attached ?h2" "in_bounds (s_id ?h2)" "software_servo_current_servo ?g2 < MAX_SERVOS"
    using i wf by (simp_all add: in_bounds_def wf_globals_def)
  from servo_write_attached [OF this, of v] obtain g' where
    w: "servo_write ?h2 ?g2 v = Inr (?h2, g')"
    and p: "software_servo_pins g' = software_servo_pins ?g2"
    and l: "length (software_servo_pulse_lenght g') = length (software_servo_pulse_lenght ?g2)"
    and o: "\<forall>k. k \<noteq> nat (s_id ?h2) \<longrightarrow>
                software_servo_pulse_lenght g' ! k = software_servo_pulse_lenght ?g2 ! k"
    and io: "io_log g' = io_log ?g2"
    and wf': "wf_globals ?g2 \<longrightarrow> wf_globals g'"
    by blast
  have "attach h g pin minUs maxUs v = Inr (word_of_int pin, ?h2, g')"
    using na sc w by (simp add: attach_def attach_finish_def Let_def and_then_def clamp_max_def clamp_min_def)
  moreover have "\<forall>k. k \<noteq> i \<longrightarrow> software_servo_pulse_lenght g' ! k = software_servo_pulse_lenght g ! k"
    using o by simp
  ultimately show ?thesis using p l io wf' wf2 wf by (simp add: wf_globals_def)
qed

lemma lowest_free_slot:
  assumes "\<exists>j<MAX_SERVOS. software_servo_pins g ! j = -1"
  shows "\<exists>i<MAX_SERVOS. software_servo_pins g ! i = -1 \<and> (\<forall>j<i. software_servo_pins g ! j \<noteq> -1)"
proof -
  let ?P = "\<lambda>j. j < MAX_SERVOS \<and> software_servo_pins g ! j = -1"
  from assms have "\<exists>j. ?P j" by blast
  then have "?P (LEAST j. ?P j)" by (rule LeastI_ex)
  moreover have "\<forall>j<(LEAST j. ?P j). software_servo_pins g ! j \<noteq> -1"
  proof (intro allI impI)
    fix j assume j: "j < (LEAST j. ?P j)"
    then have "\<not> ?P j" by (rule not_less_Least)
    moreover from j \<open>?P (LEAST j. ?P j)\<close> have "j < MAX_SERVOS" by simp
    ultimately show "software_servo_pins g ! j \<noteq> -1" by simp
  qed
  ultimately show ?thesis by blast
qed

text \<open>\<^verbatim>\<open>attach\<close> on an object that is not attached claims the lowest free slot \<open>i\<close>: the
  object holds \<open>i\<close>, the slot holds the pin, and the other slots keep their pins.\<close>

lemma attach_claims_lowest_free:
  assumes "\<not> s_attached h" and "wf_globals g"
    and "i < MAX_SERVOS" and "software_servo_pins g ! i = -1"
    and "\<forall>j<i. software_servo_pins g ! j \<noteq> -1"
  shows "\<exists>h' g'. attach h g pin minUs maxUs v = Inr (word_of_int pin, h', g') \<and>
           s_attached h' \<and> s_id h' = int i \<and>
           software_servo_pins g' = (software_servo_pins g)[i := pin] \<and> wf_globals g'"
proof -
  from attach_free [OF assms, of pin minUs maxUs v] obtain g' where
    "attach h g pin minUs maxUs v =
       Inr (word_of_int pin,
            h\<lparr> s_id := int i, s_attached := True,
               s_maxUs := clamp_max maxUs, s_minUs := clamp_min minUs maxUs \<rparr>, g')"
    "software_servo_pins g' = (software_servo_pins g)[i := pin]" "wf_globals g'"
    by blast
  then show ?thesis by simp
qed

text \<open>The calibration that \<^verbatim>\<open>attach\<close> stores: both bounds lie in \<open>[200, 3000]\<close>, the
  upper one is at least 250, and the lower one is at most the upper one. The two may be
  equal.\<close>

lemma clamped_calibration:
  "200 \<le> clamp_min minUs maxUs \<and> clamp_min minUs maxUs \<le> clamp_max maxUs \<and>
   250 \<le> clamp_max maxUs \<and> clamp_max maxUs \<le> 3000"
  by (simp add: clamp_min_def clamp_max_def max_def min_def word_le_nat_alt)

lemma clamped_calibration_equal:
  "250 \<le> maxUs \<Longrightarrow> maxUs \<le> minUs \<Longrightarrow> clamp_min minUs maxUs = clamp_max maxUs"
  by (simp add: clamp_min_def clamp_max_def max_def min_def word_le_nat_alt word_unat_eq_iff)

text \<open>Below 250 the two arguments may be equal, or in the wrong order, and the stored
  bounds still differ.\<close>

lemma clamped_calibration_low: "clamp_max 100 = 250 \<and> clamp_min 100 100 = 200"
  by (simp add: clamp_max_def clamp_min_def)

subsection \<open>Detaching\<close>

lemma detach_unattached: "\<not> s_attached h \<Longrightarrow> detach h g = Inr (h, g)"
  by (simp add: detach_def)

text \<open>\<^verbatim>\<open>detach\<close> clears the bit of the slot and resets its width. The pin of the slot
  stays in the table.\<close>

lemma detach_attached:
  assumes "s_attached h" "in_bounds (s_id h)"
  shows "\<exists>g'. detach h g = Inr (h\<lparr> s_id := -1, s_attached := False \<rparr>, g') \<and>
           software_servo_pins g' = software_servo_pins g \<and>
           software_servo_map g' = software_servo_map g AND NOT (push_bit (nat (s_id h)) 1) \<and>
           software_servo_pulse_lenght g' =
             (software_servo_pulse_lenght g)[nat (s_id h) := DEFAULT_NEUTRAL_PULSE_WIDTH] \<and>
           software_servo_next_servo g' = software_servo_next_servo g \<and>
           software_servo_time_to_next_pulse g' = software_servo_time_to_next_pulse g \<and>
           software_servo_current_servo g' = software_servo_current_servo g \<and>
           (wf_globals g \<longrightarrow> wf_globals g')"
  using assms by (simp add: detach_def wf_globals_def)

lemma detach_keeps_pins:
  "detach h g = Inr (h', g') \<Longrightarrow> software_servo_pins g' = software_servo_pins g"
  by (auto simp: detach_def split: if_splits)

text \<open>No slot that holds a pin is free again after \<^verbatim>\<open>detach\<close>, and the count of the
  Schedule Builder is what it was.\<close>

lemma detach_keeps_count:
  assumes "detach h g = Inr (h', g')"
  shows "fst (find_times_between_pulses g') = fst (find_times_between_pulses g)"
  using detach_keeps_pins [OF assms] by (simp add: find_times_count)

subsection \<open>Well-formed states are kept\<close>

lemma initial_globals_wf: "wf_globals initial_globals"
  by (simp add: wf_globals_def initial_globals_def MAX_SERVOS_def in_bounds_def)

lemma new_servo_ok: "handle_ok new_servo"
  by (simp add: handle_ok_def new_servo_def)

lemma detach_ok:
  assumes "handle_ok h" "wf_globals g"
  shows "\<exists>h' g'. detach h g = Inr (h', g') \<and> handle_ok h' \<and> \<not> s_attached h' \<and> wf_globals g'"
proof (cases "s_attached h")
  case True
  with assms(1) have "in_bounds (s_id h)" by (simp add: handle_ok_def)
  from detach_attached [OF True this, of g] assms(2) obtain g' where
    "detach h g = Inr (h\<lparr> s_id := -1, s_attached := False \<rparr>, g')" "wf_globals g'"
    by blast
  moreover have "handle_ok (h\<lparr> s_id := -1, s_attached := False \<rparr>)"
    by (simp add: handle_ok_def)
  ultimately show ?thesis by fastforce
next
  case False
  with assms show ?thesis by (simp add: detach_unattached)
qed

lemma writeMicroseconds_ok:
  assumes "handle_ok h" "wf_globals g"
  shows "\<exists>g'. writeMicroseconds h g v = Inr (h, g') \<and> wf_globals g'"
proof (cases "s_attached h")
  case True
  with assms(1) have ib: "in_bounds (s_id h)" by (simp add: handle_ok_def)
  from assms(2) have "software_servo_current_servo g < MAX_SERVOS" by (simp add: wf_globals_def)
  from writeMicroseconds_attached [OF True ib this, of v] assms(2) show ?thesis by blast
next
  case False
  with assms show ?thesis by (simp add: writeMicroseconds_unattached)
qed

lemma servo_write_ok:
  assumes "handle_ok h" "wf_globals g"
  shows "\<exists>g'. servo_write h g v = Inr (h, g') \<and> wf_globals g'"
proof -
  obtain u where "servo_write h g v = writeMicroseconds h g u"
    using servo_write_as_writeMicroseconds by blast
  with writeMicroseconds_ok [OF assms, of u] show ?thesis by simp
qed

lemma attach_ok:
  assumes "handle_ok h" "wf_globals g"
  shows "\<exists>r h' g'. attach h g pin minUs maxUs v = Inr (r, h', g') \<and> handle_ok h' \<and> wf_globals g'"
proof (cases "s_attached h")
  case True
  let ?h1 = "h\<lparr> s_maxUs := clamp_max maxUs, s_minUs := clamp_min minUs maxUs \<rparr>"
  from True assms(1) have "handle_ok ?h1" by (simp add: handle_ok_def)
  from servo_write_ok [OF this assms(2), of v] obtain g' where
    "servo_write ?h1 g v = Inr (?h1, g')" "wf_globals g'" by blast
  with True \<open>handle_ok ?h1\<close> show ?thesis
    by (simp add: attach_def attach_finish_def Let_def and_then_def clamp_max_def clamp_min_def)
next
  case False
  with assms(1) have id: "s_id h = -1" by (simp add: handle_ok_def)
  show ?thesis
  proof (cases "\<exists>j<MAX_SERVOS. software_servo_pins g ! j = -1")
    case True
    from lowest_free_slot [OF True] obtain i where
      i: "i < MAX_SERVOS" "software_servo_pins g ! i = -1" "\<forall>j<i. software_servo_pins g ! j \<noteq> -1"
      by blast
    let ?h' = "h\<lparr> s_id := int i, s_attached := True,
                    s_maxUs := clamp_max maxUs, s_minUs := clamp_min minUs maxUs \<rparr>"
    from attach_free [OF False assms(2) i, of pin minUs maxUs v] obtain g' where
      "attach h g pin minUs maxUs v = Inr (word_of_int pin, ?h', g')" "wf_globals g'"
      by blast
    moreover from i(1) have "handle_ok ?h'" by (simp add: handle_ok_def in_bounds_def)
    ultimately show ?thesis by blast
  next
    case False
    then have full: "\<forall>j<MAX_SERVOS. software_servo_pins g ! j \<noteq> -1" by blast
    have "wf_globals (g\<lparr> io_log := io_log g @ [DigitalWrite pin False, PinModeOutput pin] \<rparr>)"
      using assms(2) by (simp add: wf_globals_def)
    with attach_full [OF \<open>\<not> s_attached h\<close> id full, of pin minUs maxUs v] assms(1)
    show ?thesis by simp
  qed
qed

section \<open>The claims\<close>

subsection \<open>C1: slots are claimed in ascending order; detach and reuse\<close>

text \<open>C1: in every sequence of at most \<open>MAX_SERVOS\<close> calls of \<^verbatim>\<open>attach\<close> on distinct
  objects, each call claims the lowest free slot of the Channel Table, and a \<^verbatim>\<open>detach\<close>
  frees the slot of its object, so that a later \<^verbatim>\<open>attach\<close> can reuse it. The first half
  is lemma \<open>attach_claims_lowest_free\<close>. The second half fails: \<^verbatim>\<open>detach\<close> leaves the
  pin in the table, and \<^verbatim>\<open>attach\<close> takes a slot for free only when it holds \<open>-1\<close>.
  A first object is attached to pin 5, which claims slot 0, and detached: slot 0 still
  holds pin 5. A second object, attached to pin 6, gets slot 1, not slot 0. When the timer
  then fires on slot 0, pin 5 of the detached object is pulsed. And after four objects were
  attached and detached in turn, the table holds their four pins, and the \<^verbatim>\<open>attach\<close> of
  a fifth object returns 0 and attaches nothing, although no object is attached.\<close>

theorem detach_leaves_slot_claimed:
  "attach1 new_servo initial_globals 5 = Inr (5, servo_on_slot0, table_one_attached) \<and>
   detach_only_channel = Inr (new_servo, table_one_detached) \<and>
   software_servo_pins table_one_detached = [5, -1, -1, -1] \<and>
   reattach_scenario =
     Inr (6, \<lparr> s_id = 1, s_attached = True, s_minUs = 1000, s_maxUs = 2000 \<rparr>,
          \<lparr> software_servo_timer = Armed 5 True,
            software_servo_pins = [5, 6, -1, -1],
            software_servo_pulse_lenght = [1500, 1500, 1500, 1500],
            software_servo_current_servo = 0, software_servo_map = 2,
            software_servo_next_servo = [1, 0, 0, 0],
            software_servo_time_to_next_pulse = [5, 15, 10, 5],
            io_log = [DigitalWrite 5 False, PinModeOutput 5,
                      DigitalWrite 6 False, PinModeOutput 6] \<rparr>) \<and>
   tick_after_reattach =
     Inr \<lparr> software_servo_timer = Armed 5 True,
           software_servo_pins = [5, 6, -1, -1],
           software_servo_pulse_lenght = [1500, 1500, 1500, 1500],
           software_servo_current_servo = 1, software_servo_map = 2,
           software_servo_next_servo = [1, 0, 0, 0],
           software_servo_time_to_next_pulse = [5, 15, 10, 5],
           io_log = [DigitalWrite 5 False, PinModeOutput 5,
                     DigitalWrite 6 False, PinModeOutput 6,
                     DigitalWrite 5 True, DelayUs 1500, DigitalWrite 5 False] \<rparr> \<and>
   fifth_attach_scenario =
     Inr (0, \<lparr> s_id = -1, s_attached = False, s_minUs = 1000, s_maxUs = 2000 \<rparr>,
          \<lparr> software_servo_timer = Armed 5 True,
            software_servo_pins = [1, 2, 3, 4],
            software_servo_pulse_lenght = [1500, 1500, 1500, 1500],
            software_servo_current_servo = 0, software_servo_map = 0,
            software_servo_next_servo = [1, 2, 3, 0],
            software_servo_time_to_next_pulse = [5, 5, 5, 5],
            io_log = [DigitalWrite 1 False, PinModeOutput 1,
                      DigitalWrite 2 False, PinModeOutput 2,
                      DigitalWrite 3 False, PinModeOutput 3,
                      DigitalWrite 4 False, PinModeOutput 4,
                      DigitalWrite 5 False, PinModeOutput 5] \<rparr>)"
  by code_simp

subsection \<open>C2: detaching the only active channel\<close>

text \<open>The second half of the claim holds in general. When the bit of the object is the only
  bit of the bitmask, \<^verbatim>\<open>detach\<close> leaves the bitmask at 0, and the Pulse Emitter, on its
  next invocation, disarms the timer and does nothing else.\<close>

lemma detach_sole_active_disarms:
  assumes "s_attached h" and "in_bounds (s_id h)"
    and "software_servo_map g = push_bit (nat (s_id h)) 1"
  shows "\<exists>h' g'. detach h g = Inr (h', g') \<and> \<not> s_attached h' \<and> software_servo_map g' = 0 \<and>
           software_servo_timer_tick g' = Inr (g'\<lparr> software_servo_timer := Disarmed \<rparr>)"
proof -
  from detach_attached [OF assms(1,2), of g] obtain g' where
    d: "detach h g = Inr (h\<lparr> s_id := -1, s_attached := False \<rparr>, g')"
    and m: "software_servo_map g' = software_servo_map g AND NOT (push_bit (nat (s_id h)) 1)"
    by blast
  from m assms(3) have z: "software_servo_map g' = 0" by simp
  from d z timer_tick_idle [OF z] show ?thesis by fastforce
qed

text \<open>Had \<^verbatim>\<open>detach\<close> written \<open>-1\<close> back to the slot, the Schedule Builder would count 0
  on the resulting table, as the claim says.\<close>

lemma released_pin_count:
  "fst (find_times_between_pulses
          (table_one_detached\<lparr> software_servo_pins := [-1, -1, -1, -1] \<rparr>)) = 0"
  by code_simp

text \<open>C2: starting from a state with exactly one active channel, \<^verbatim>\<open>detach\<close> on that
  channel is to drive the count of the Schedule Builder to 0, and the Pulse Emitter, on
  its next invocation after that \<^verbatim>\<open>detach\<close>, is to disarm the timer. After
  \<^verbatim>\<open>attach(5)\<close> on a new object, slot 0 is the only active channel. After its
  \<^verbatim>\<open>detach\<close> the bitmask is 0 and the Pulse Emitter disarms the timer, but slot 0 still
  holds pin 5, and the Schedule Builder counts 4, not 0.\<close>

theorem detach_only_channel_count:
  "attach1 new_servo initial_globals 5 = Inr (5, servo_on_slot0, table_one_attached) \<and>
   detach servo_on_slot0 table_one_attached = Inr (new_servo, table_one_detached) \<and>
   software_servo_pins table_one_detached = [5, -1, -1, -1] \<and>
   fst (find_times_between_pulses table_one_detached) = 4 \<and>
   software_servo_map table_one_detached = 0 \<and>
   software_servo_timer_tick table_one_detached =
     Inr (table_one_detached\<lparr> software_servo_timer := Disarmed \<rparr>)"
  by code_simp

subsection \<open>C3: writing and reading back\<close>

text \<open>C3, as stated: after \<^verbatim>\<open>writeMicroseconds(v)\<close> on any object,
  \<^verbatim>\<open>readMicroseconds()\<close> returns the clamped \<open>v\<close>. A new object, which is not attached,
  reads 0 after writing 1500, and the clamped value is 1500.\<close>

theorem write_then_read_unattached_counterexample:
  "write_then_read new_servo initial_globals 1500 = Inr 0 \<and>
   constrain 1500 (uint (s_minUs new_servo)) (uint (s_maxUs new_servo)) = 1500 \<and>
   write_then_read new_servo initial_globals 1500 \<noteq>
     Inr (constrain 1500 (uint (s_minUs new_servo)) (uint (s_maxUs new_servo)))"
  by (simp add: write_then_read_def writeMicroseconds_def readMicroseconds_def new_servo_def
        and_then_def constrain_def DEFAULT_MIN_PULSE_WIDTH_def DEFAULT_MAX_PULSE_WIDTH_def)

text \<open>C3, amended: for every attached object, bound to a slot of the table, and every
  integer \<open>v\<close>, after \<^verbatim>\<open>writeMicroseconds(v)\<close> a call of \<^verbatim>\<open>readMicroseconds()\<close>
  returns \<open>v\<close> clamped into the calibration bounds of the object.\<close>

theorem write_then_read_attached:
  assumes "s_attached h" and "in_bounds (s_id h)" and "wf_globals g"
  shows "write_then_read h g v = Inr (constrain v (uint (s_minUs h)) (uint (s_maxUs h)))"
proof -
  from assms(3) have cur: "software_servo_current_servo g < MAX_SERVOS"
    and len: "length (software_servo_pulse_lenght g) = MAX_SERVOS"
    by (simp_all add: wf_globals_def)
  from writeMicroseconds_attached [OF assms(1,2) cur, of v] obtain g' where
    w: "writeMicroseconds h g v = Inr (h, g')"
    and p: "software_servo_pulse_lenght g' =
             (software_servo_pulse_lenght g)
               [nat (s_id h) := constrain v (uint (s_minUs h)) (uint (s_maxUs h))]"
    by blast
  from assms(2) len have "nat (s_id h) < length (software_servo_pulse_lenght g)"
    by (simp add: in_bounds_def nat_less_iff)
  with p have "software_servo_pulse_lenght g' ! nat (s_id h) =
      constrain v (uint (s_minUs h)) (uint (s_maxUs h))"
    by simp
  with w assms(1,2) show ?thesis
    by (simp add: write_then_read_def and_then_def readMicroseconds_def)
qed

text \<open>An object attached to slot 0 with the default calibration writes 2500 and reads
  2000.\<close>

theorem write_then_read_attached_witness:
  "write_then_read \<lparr> s_id = 0, s_attached = True, s_minUs = 1000, s_maxUs = 2000 \<rparr>
     (initial_globals\<lparr> software_servo_pins := [5, -1, -1, -1] \<rparr>) 2500 = Inr 2000"
proof -
  let ?h = "\<lparr> s_id = 0, s_attached = True, s_minUs = 1000, s_maxUs = 2000 \<rparr>"
  let ?g = "initial_globals\<lparr> software_servo_pins := [5, -1, -1, -1] \<rparr>"
  have 1: "s_attached ?h" by simp
  have 2: "in_bounds (s_id ?h)" by (simp add: in_bounds_def MAX_SERVOS_def)
  have 3: "wf_globals ?g"
    by (simp add: wf_globals_def initial_globals_def MAX_SERVOS_def in_bounds_def)
  from write_then_read_attached [OF 1 2 3, of 2500] show ?thesis
    by (simp add: constrain_def)
qed

subsection \<open>C4: an object that is not attached\<close>

text \<open>C4: on an object that is not attached, \<^verbatim>\<open>read\<close> is to return 0. A new object
  has the calibration \<open>[1000, 2000]\<close>, and \<^verbatim>\<open>read\<close> maps the 0 of
  \<^verbatim>\<open>readMicroseconds\<close> through it: the result is \<open>-179\<close>, while \<^verbatim>\<open>write\<close>,
  \<^verbatim>\<open>writeMicroseconds\<close> and \<^verbatim>\<open>readMicroseconds\<close> do on this object what the claim
  says.\<close>

theorem read_unattached_default:
  "read new_servo initial_globals = Inr (- 179) \<and>
   readMicroseconds new_servo initial_globals = Inr 0 \<and>
   servo_write new_servo initial_globals 90 = Inr (new_servo, initial_globals) \<and>
   writeMicroseconds new_servo initial_globals 1500 = Inr (new_servo, initial_globals)"
proof -
  have n: "\<not> s_attached new_servo" by (simp add: new_servo_def)
  have "improved_map 0 1000 2000 0 180 = Inr (- 179)"
    by (simp add: improved_map_def and_then_def c_div_def)
  then have "read new_servo initial_globals = Inr (- 179)"
    by (simp add: read_unattached [OF n])
       (simp add: new_servo_def DEFAULT_MIN_PULSE_WIDTH_def DEFAULT_MAX_PULSE_WIDTH_def)
  with unattached_write_and_readMicroseconds [OF n] show ?thesis by simp
qed

subsection \<open>C5: the round trip of the mapping\<close>

text \<open>C5: for every angle \<open>a\<close> in \<open>[0, 180]\<close> and every pair of calibration bounds
  \<open>min_us \<le> max_us\<close>, mapping the angle to microseconds, back to an angle and to
  microseconds again gives the microseconds of the first mapping, provided the bounds
  differ. With \<open>min_us = max_us\<close>, a calibration that \<^verbatim>\<open>attach\<close> accepts, the
  mapping back divides by zero, and the round trip yields no value.\<close>

theorem round_trip_symmetry:
  assumes "0 \<le> a" "a \<le> 180" "min_us \<le> max_us"
  shows "round_trip min_us max_us a =
           (if min_us < max_us then angle_to_us min_us max_us a else Inl DivisionByZero)"
proof (cases "min_us < max_us")
  case True
  define R where "R = max_us - min_us"
  define u where "u = round_div (a * R) 180"
  define b where "b = round_div (u * 180) R"
  have R: "0 < R" using True by (simp add: R_def)
  have u0: "0 \<le> u" unfolding u_def using assms(1) R by (intro round_div_nonneg) simp_all
  have b0: "0 \<le> b" unfolding b_def using u0 R by (intro round_div_nonneg) simp_all
  have s1: "angle_to_us min_us max_us a = Inr (u + min_us)"
    using improved_map_round_div [of 0 180 a min_us max_us] assms True
    by (simp add: angle_to_us_def u_def R_def)
  have s2: "us_to_angle min_us max_us (u + min_us) = Inr b"
    using improved_map_round_div [of min_us max_us "u + min_us" 0 180] True u0
    by (simp add: us_to_angle_def b_def R_def)
  have s3: "angle_to_us min_us max_us b = Inr (round_div (b * R) 180 + min_us)"
    using improved_map_round_div [of 0 180 b min_us max_us] b0 True
    by (simp add: angle_to_us_def R_def)
  have "round_div (b * R) 180 = u"
    unfolding b_def u_def by (rule round_trip_core [OF R])
  with s1 s2 s3 True show ?thesis by (simp add: round_trip_def and_then_def)
next
  case False
  with assms have e: "max_us = min_us" by simp
  have "angle_to_us min_us min_us a = Inr min_us"
    using improved_map_round_div [of 0 180 a min_us min_us] assms
    by (simp add: angle_to_us_def round_div_def)
  moreover have "us_to_angle min_us min_us min_us = Inl DivisionByZero"
    by (simp add: us_to_angle_def improved_map_empty_range)
  ultimately show ?thesis using e by (simp add: round_trip_def and_then_def)
qed

theorem round_trip_symmetry_witness:
  "round_trip 250 250 0 = Inl DivisionByZero \<and>
   angle_to_us 250 250 0 = Inr 250 \<and>
   round_trip 1000 2000 90 = Inr 1500 \<and>
   angle_to_us 1000 2000 90 = Inr 1500"
proof -
  have a: "angle_to_us 250 250 0 = Inr 250" "angle_to_us 1000 2000 90 = Inr 1500"
    by (simp_all add: angle_to_us_def improved_map_def and_then_def c_div_def)
  from round_trip_symmetry [of 0 250 250] round_trip_symmetry [of 90 1000 2000] a
  show ?thesis by simp
qed

subsection \<open>C6: one active channel\<close>

text \<open>C6: in every state of the Channel Table in which exactly one slot \<open>i\<close> has an
  assigned pin, the Schedule Builder computes for \<open>i\<close> a delay of one full cycle,
  \<open>MAX_SERVOS * REFRESH_INTERVAL\<close>, and makes \<open>i\<close> its own successor.\<close>

theorem single_channel_schedule:
  assumes "wf_globals g" and "i < MAX_SERVOS"
    and "software_servo_pins g ! i \<noteq> -1"
    and "\<forall>j<MAX_SERVOS. j \<noteq> i \<longrightarrow> software_servo_pins g ! j = -1"
  shows "software_servo_time_to_next_pulse (snd (find_times_between_pulses g)) ! i =
           int MAX_SERVOS * REFRESH_INTERVAL \<and>
         software_servo_next_servo (snd (find_times_between_pulses g)) ! i = int i"
proof -
  obtain finded g' where r: "find_outer [0..<MAX_SERVOS] 0 g = (finded, g')"
    by (cases "find_outer [0..<MAX_SERVOS] 0 g")
  from assms(1) have l: "length (software_servo_pins g) = MAX_SERVOS"
    "length (software_servo_next_servo g) = MAX_SERVOS"
    "length (software_servo_time_to_next_pulse g) = MAX_SERVOS"
    by (simp_all add: wf_globals_def)
  from assms(2) have m: "i \<in> set [0..<MAX_SERVOS]" by simp
  from find_outer_single [OF l assms(2) assms(3) assms(4) r m] r
  show ?thesis by (simp add: find_times_between_pulses_def)
qed

theorem single_channel_schedule_witness:
  "wf_globals (initial_globals\<lparr> software_servo_pins := [-1, -1, 7, -1] \<rparr>) \<and>
   (2::nat) < MAX_SERVOS \<and>
   software_servo_pins (initial_globals\<lparr> software_servo_pins := [-1, -1, 7, -1] \<rparr>) ! 2 \<noteq> -1 \<and>
   software_servo_time_to_next_pulse
     (snd (find_times_between_pulses (initial_globals\<lparr> software_servo_pins := [-1, -1, 7, -1] \<rparr>))) ! 2 = 20 \<and>
   software_servo_next_servo
     (snd (find_times_between_pulses (initial_globals\<lparr> software_servo_pins := [-1, -1, 7, -1] \<rparr>))) ! 2 = 2"
proof -
  let ?g = "initial_globals\<lparr> software_servo_pins := [-1, -1, 7, -1] \<rparr>"
  have w: "wf_globals ?g"
    by (simp add: wf_globals_def initial_globals_def MAX_SERVOS_def in_bounds_def)
  have i: "(2::nat) < MAX_SERVOS" by (simp add: MAX_SERVOS_def)
  have a: "software_servo_pins ?g ! 2 \<noteq> -1" by simp
  have r: "\<forall>j<MAX_SERVOS. j \<noteq> 2 \<longrightarrow> software_servo_pins ?g ! j = -1"
    by (simp add: MAX_SERVOS_def all_less4)
  from single_channel_schedule [OF w i a r] w i a show ?thesis
    by (simp add: MAX_SERVOS_def REFRESH_INTERVAL_def)
qed

subsection \<open>C7: attaching to a full table\<close>

text \<open>C7: when all \<open>MAX_SERVOS\<close> slots of the Channel Table are occupied and the calling
  object is not bound, \<^verbatim>\<open>attach\<close> returns 0 and leaves the Channel Table, the
  Schedule and every object as they were. Of the whole state only the pin hardware has
  changed: the pin was driven low and made an output before the search.\<close>

theorem attach_beyond_capacity:
  assumes "k < length hs" and "\<not> s_attached (hs ! k)" and "s_id (hs ! k) = -1"
    and "\<forall>j<MAX_SERVOS. software_servo_pins g ! j \<noteq> -1"
  shows "attach_on k hs g pin minUs maxUs v =
           Inr (0, hs, g\<lparr> io_log := io_log g @ [DigitalWrite pin False, PinModeOutput pin] \<rparr>)"
  using attach_full [OF assms(2,3,4)] by (simp add: attach_on_def and_then_def)

text \<open>Four attached objects and a fifth, new one, which asks for pin 9.\<close>

theorem attach_beyond_capacity_witness:
  "attach_on 4
     [\<lparr> s_id = 0, s_attached = True, s_minUs = 1000, s_maxUs = 2000 \<rparr>,
      \<lparr> s_id = 1, s_attached = True, s_minUs = 1000, s_maxUs = 2000 \<rparr>,
      \<lparr> s_id = 2, s_attached = True, s_minUs = 1000, s_maxUs = 2000 \<rparr>,
      \<lparr> s_id = 3, s_attached = True, s_minUs = 1000, s_maxUs = 2000 \<rparr>,
      new_servo]
     (initial_globals\<lparr> software_servo_pins := [1, 2, 3, 4], software_servo_map := 15 \<rparr>)
     9 1000 2000 1500 =
   Inr (0,
     [\<lparr> s_id = 0, s_attached = True, s_minUs = 1000, s_maxUs = 2000 \<rparr>,
      \<lparr> s_id = 1, s_attached = True, s_minUs = 1000, s_maxUs = 2000 \<rparr>,
      \<lparr> s_id = 2, s_attached = True, s_minUs = 1000, s_maxUs = 2000 \<rparr>,
      \<lparr> s_id = 3, s_attached = True, s_minUs = 1000, s_maxUs = 2000 \<rparr>,
      new_servo],
     initial_globals\<lparr> software_servo_pins := [1, 2, 3, 4], software_servo_map := 15,
                       io_log := [DigitalWrite 9 False, PinModeOutput 9] \<rparr>)"
proof -
  let ?hs = "[\<lparr> s_id = 0, s_attached = True, s_minUs = 1000, s_maxUs = 2000 \<rparr>,
      \<lparr> s_id = 1, s_attached = True, s_minUs = 1000, s_maxUs = 2000 \<rparr>,
      \<lparr> s_id = 2, s_attached = True, s_minUs = 1000, s_maxUs = 2000 \<rparr>,
      \<lparr> s_id = 3, s_attached = True, s_minUs = 1000, s_maxUs = 2000 \<rparr>,
      new_servo]"
  let ?g = "initial_globals\<lparr> software_servo_pins := [1, 2, 3, 4], software_servo_map := 15 \<rparr>"
  have 1: "4 < length ?hs" by simp
  have 2: "\<not> s_attached (?hs ! 4)" by (simp add: new_servo_def)
  have 3: "s_id (?hs ! 4) = -1" by (simp add: new_servo_def)
  have 4: "\<forall>j<MAX_SERVOS. software_servo_pins ?g ! j \<noteq> -1"
    by (simp add: MAX_SERVOS_def all_less4)
  from attach_beyond_capacity [OF 1 2 3 4, of 9 1000 2000 1500] show ?thesis
    by (simp add: initial_globals_def)
qed

subsection \<open>C8: the Pulse Emitter changes the cursor only\<close>

text \<open>C8: every invocation of the Pulse Emitter leaves the pin assignments, the pulse
  widths, the active bitmask and the two arrays of the Schedule as they were. Of the
  variables of the driver it changes the cursor only; beside that it programs the timer
  and drives pins. With the cursor inside the table, the invocation returns.\<close>

theorem timer_tick_frame:
  "(software_servo_current_servo g < MAX_SERVOS \<longrightarrow>
      (\<exists>g'. software_servo_timer_tick g = Inr g')) \<and>
   (\<forall>g'. software_servo_timer_tick g = Inr g' \<longrightarrow>
      software_servo_pins g' = software_servo_pins g \<and>
      software_servo_pulse_lenght g' = software_servo_pulse_lenght g \<and>
      software_servo_map g' = software_servo_map g \<and>
      software_servo_next_servo g' = software_servo_next_servo g \<and>
      software_servo_time_to_next_pulse g' = software_servo_time_to_next_pulse g \<and>
      g' = g\<lparr> software_servo_current_servo := software_servo_current_servo g',
                software_servo_timer := software_servo_timer g',
                io_log := io_log g' \<rparr>)"
proof (intro conjI allI impI)
  assume "software_servo_current_servo g < MAX_SERVOS"
  then show "\<exists>g'. software_servo_timer_tick g = Inr g'" by (rule timer_tick_total)
next
  fix g' assume t: "software_servo_timer_tick g = Inr g'"
  then show "software_servo_pins g' = software_servo_pins g"
    by (auto simp: software_servo_timer_tick_def Let_def split: if_splits)
  from t show "software_servo_pulse_lenght g' = software_servo_pulse_lenght g"
    by (auto simp: software_servo_timer_tick_def Let_def split: if_splits)
  from t show "software_servo_map g' = software_servo_map g"
    by (auto simp: software_servo_timer_tick_def Let_def split: if_splits)
  from t show "software_servo_next_servo g' = software_servo_next_servo g"
    by (auto simp: software_servo_timer_tick_def Let_def split: if_splits)
  from t show "software_servo_time_to_next_pulse g' = software_servo_time_to_next_pulse g"
    by (auto simp: software_servo_timer_tick_def Let_def split: if_splits)
  from t show "g' = g\<lparr> software_servo_current_servo := software_servo_current_servo g',
                software_servo_timer := software_servo_timer g',
                io_log := io_log g' \<rparr>"
    by (auto simp: software_servo_timer_tick_def Let_def split: if_splits)
qed

text \<open>The state after a first \<^verbatim>\<open>attach(5)\<close>: the timer fires, pulses pin 5 and stays
  on slot 0.\<close>

theorem timer_tick_frame_witness:
  "software_servo_current_servo table_one_attached < MAX_SERVOS \<and>
   software_servo_timer_tick table_one_attached =
     Inr (table_one_attached
            \<lparr> io_log := [DigitalWrite 5 False, PinModeOutput 5,
                         DigitalWrite 5 True, DelayUs 1500, DigitalWrite 5 False] \<rparr>)"
  using timer_tick_frame [of table_one_attached]
  by (simp add: software_servo_timer_tick_def table_one_attached_def MAX_SERVOS_def
        to_unsigned_def)

subsection \<open>C9: attaching to pin 0\<close>

text \<open>C9: a successful \<^verbatim>\<open>attach\<close> can return the value that reports failure. With a
  free slot, and \<open>i\<close> the lowest one, \<^verbatim>\<open>attach\<close> to pin 0 claims slot \<open>i\<close> and marks the
  object attached, and it returns 0; 0 is also what \<^verbatim>\<open>attach\<close> returns from a full
  table, where it attaches nothing.\<close>

theorem attach_pin0_returns_failure_value:
  assumes "\<not> s_attached h" and "s_id h = -1" and "wf_globals g"
    and "i < MAX_SERVOS" and "software_servo_pins g ! i = -1"
    and "\<forall>j<i. software_servo_pins g ! j \<noteq> -1"
    and "\<forall>j<MAX_SERVOS. software_servo_pins gf ! j \<noteq> -1"
  shows "(\<exists>h' g'. attach h g 0 minUs maxUs v = Inr (0, h', g') \<and>
            s_attached h' \<and> s_id h' = int i \<and> software_servo_pins g' ! i = 0) \<and>
         (\<exists>h' g'. attach h gf pin minUs maxUs v = Inr (0, h', g') \<and>
            \<not> s_attached h' \<and> software_servo_pins g' = software_servo_pins gf)"
proof
  from attach_free [OF assms(1,3,4,5,6), of 0 minUs maxUs v] obtain g' where
    a: "attach h g 0 minUs maxUs v =
          Inr (0, h\<lparr> s_id := int i, s_attached := True,
                     s_maxUs := clamp_max maxUs, s_minUs := clamp_min minUs maxUs \<rparr>, g')"
    and p: "software_servo_pins g' = (software_servo_pins g)[i := 0]"
    by auto
  from assms(3,4) have "i < length (software_servo_pins g)" by (simp add: wf_globals_def)
  with p have "software_servo_pins g' ! i = 0" by simp
  with a show "\<exists>h' g'. attach h g 0 minUs maxUs v = Inr (0, h', g') \<and>
            s_attached h' \<and> s_id h' = int i \<and> software_servo_pins g' ! i = 0"
    by simp
next
  from attach_full [OF assms(1,2,7), of pin minUs maxUs v] assms(1)
  show "\<exists>h' g'. attach h gf pin minUs maxUs v = Inr (0, h', g') \<and>
            \<not> s_attached h' \<and> software_servo_pins g' = software_servo_pins gf"
    by simp
qed

text \<open>A new object and the initial table, where slot 0 is the lowest free one; and the
  same object with a table that holds the pins 1 to 4.\<close>

theorem attach_pin0_returns_failure_value_witness:
  "attach new_servo initial_globals 0 1000 2000 1500 =
     Inr (0, \<lparr> s_id = 0, s_attached = True, s_minUs = 1000, s_maxUs = 2000 \<rparr>,
          \<lparr> software_servo_timer = Armed 20 True,
            software_servo_pins = [0, -1, -1, -1],
            software_servo_pulse_lenght = [1500, 1500, 1500, 1500],
            software_servo_current_servo = 0, software_servo_map = 1,
            software_servo_next_servo = [0, 0, 0, 0],
            software_servo_time_to_next_pulse = [20, 15, 10, 5],
            io_log = [DigitalWrite 0 False, PinModeOutput 0] \<rparr>) \<and>
   attach new_servo (initial_globals\<lparr> software_servo_pins := [1, 2, 3, 4] \<rparr>) 9 1000 2000 1500 =
     Inr (0, new_servo,
          initial_globals\<lparr> software_servo_pins := [1, 2, 3, 4],
                            io_log := [DigitalWrite 9 False, PinModeOutput 9] \<rparr>)"
proof -
  let ?gf = "initial_globals\<lparr> software_servo_pins := [1, 2, 3, 4] \<rparr>"
  have 1: "\<not> s_attached new_servo" and 2: "s_id new_servo = -1" by (simp_all add: new_servo_def)
  have 3: "wf_globals initial_globals"
    by (simp add: wf_globals_def initial_globals_def MAX_SERVOS_def in_bounds_def)
  have 4: "(0::nat) < MAX_SERVOS" by (simp add: MAX_SERVOS_def)
  have 5: "software_servo_pins initial_globals ! 0 = -1" by (simp add: initial_globals_def)
  have 6: "\<forall>j<0::nat. software_servo_pins initial_globals ! j \<noteq> -1" by simp
  have 7: "\<forall>j<MAX_SERVOS. software_servo_pins ?gf ! j \<noteq> -1"
    by (simp add: MAX_SERVOS_def all_less4)
  have e1: "attach new_servo initial_globals 0 1000 2000 1500 =
     Inr (0, \<lparr> s_id = 0, s_attached = True, s_minUs = 1000, s_maxUs = 2000 \<rparr>,
          \<lparr> software_servo_timer = Armed 20 True,
            software_servo_pins = [0, -1, -1, -1],
            software_servo_pulse_lenght = [1500, 1500, 1500, 1500],
            software_servo_current_servo = 0, software_servo_map = 1,
            software_servo_next_servo = [0, 0, 0, 0],
            software_servo_time_to_next_pulse = [20, 15, 10, 5],
            io_log = [DigitalWrite 0 False, PinModeOutput 0] \<rparr>)"
    by code_simp
  have e2: "attach new_servo ?gf 9 1000 2000 1500 =
     Inr (0, new_servo, ?gf\<lparr> io_log := [DigitalWrite 9 False, PinModeOutput 9] \<rparr>)"
    by code_simp
  from attach_pin0_returns_failure_value [OF 1 2 3 4 5 6 7, of 1000 2000 1500 9] e1 e2
  show ?thesis by simp
qed

subsection \<open>C10: a calibration with equal bounds\<close>

text \<open>C10, as stated: with a calibration of equal bounds, \<^verbatim>\<open>write(v)\<close> with \<open>v < 200\<close>
  calls the helper with a divisor of 0. After \<^verbatim>\<open>attach(5, 1500, 1000)\<close> on a new object
  both bounds are 1000; \<^verbatim>\<open>write(90)\<close> then returns, with the width 1000 stored, and it is
  \<^verbatim>\<open>read()\<close> that divides by zero.\<close>

theorem degenerate_write_counterexample:
  "degenerate_attach =
     Inr (5, \<lparr> s_id = 0, s_attached = True, s_minUs = 1000, s_maxUs = 1000 \<rparr>,
          \<lparr> software_servo_timer = Armed 20 True,
            software_servo_pins = [5, -1, -1, -1],
            software_servo_pulse_lenght = [1000, 1500, 1500, 1500],
            software_servo_current_servo = 0, software_servo_map = 1,
            software_servo_next_servo = [0, 0, 0, 0],
            software_servo_time_to_next_pulse = [20, 15, 10, 5],
            io_log = [DigitalWrite 5 False, PinModeOutput 5] \<rparr>) \<and>
   degenerate_write =
     Inr (\<lparr> s_id = 0, s_attached = True, s_minUs = 1000, s_maxUs = 1000 \<rparr>,
          \<lparr> software_servo_timer = Armed 20 True,
            software_servo_pins = [5, -1, -1, -1],
            software_servo_pulse_lenght = [1000, 1500, 1500, 1500],
            software_servo_current_servo = 0, software_servo_map = 1,
            software_servo_next_servo = [0, 0, 0, 0],
            software_servo_time_to_next_pulse = [20, 15, 10, 5],
            io_log = [DigitalWrite 5 False, PinModeOutput 5] \<rparr>) \<and>
   degenerate_write \<noteq> Inl DivisionByZero \<and>
   degenerate_read = Inl DivisionByZero"
  by code_simp

text \<open>C10, amended: for some attainable calibration the mapping helper divides by zero.
  \<^verbatim>\<open>attach(pin, min, max)\<close> with \<open>min \<ge> max \<ge> 250\<close> stores equal bounds, and then
  \<^verbatim>\<open>read()\<close> calls the helper with \<open>minIn = maxIn\<close>, a divisor of 0. \<^verbatim>\<open>write(v)\<close> does
  not: for no \<open>v\<close> does it divide by zero.\<close>

theorem equal_bounds_read_divides_by_zero:
  assumes "\<not> s_attached h" and "wf_globals g"
    and "i < MAX_SERVOS" and "software_servo_pins g ! i = -1"
    and "\<forall>j<i. software_servo_pins g ! j \<noteq> -1"
    and "250 \<le> maxUs" and "maxUs \<le> minUs"
  shows "\<exists>h' g'. attach h g pin minUs maxUs v = Inr (word_of_int pin, h', g') \<and>
           s_attached h' \<and> s_minUs h' = s_maxUs h' \<and>
           read h' g' = Inl DivisionByZero \<and>
           (\<forall>a. servo_write h' g' a \<noteq> Inl DivisionByZero)"
proof -
  let ?h' = "h\<lparr> s_id := int i, s_attached := True,
                 s_maxUs := clamp_max maxUs, s_minUs := clamp_min minUs maxUs \<rparr>"
  from attach_free [OF assms(1,2,3,4,5), of pin minUs maxUs v] obtain g' where
    a: "attach h g pin minUs maxUs v = Inr (word_of_int pin, ?h', g')"
    by blast
  have e: "s_minUs ?h' = s_maxUs ?h'"
    using clamped_calibration_equal [OF assms(6,7)] by simp
  from assms(3) have "handle_ok ?h'" by (simp add: handle_ok_def in_bounds_def)
  then have "read ?h' g' = Inl DivisionByZero"
    using e by (simp only: read_division_by_zero)
  with a e show ?thesis using servo_write_no_division by fastforce
qed

text \<open>A new object, the initial table, and \<^verbatim>\<open>attach(5, 1500, 1000)\<close>.\<close>

theorem equal_bounds_read_divides_by_zero_witness:
  "(250::16 word) \<le> 1000 \<and> (1000::16 word) \<le> 1500 \<and>
   (\<exists>h' g'. attach new_servo initial_globals 5 1500 1000 1500 = Inr (5, h', g') \<and>
      s_attached h' \<and> s_minUs h' = s_maxUs h' \<and> read h' g' = Inl DivisionByZero)"
proof -
  have 1: "\<not> s_attached new_servo" by (simp add: new_servo_def)
  have 3: "(0::nat) < MAX_SERVOS" by (simp add: MAX_SERVOS_def)
  have 4: "software_servo_pins initial_globals ! 0 = -1" by (simp add: initial_globals_def)
  have 5: "\<forall>j<0::nat. software_servo_pins initial_globals ! j \<noteq> -1" by simp
  have 6: "(250::16 word) \<le> 1000" and 7: "(1000::16 word) \<le> 1500" by simp_all
  from equal_bounds_read_divides_by_zero [OF 1 initial_globals_wf 3 4 5 6 7, of 5 1500]
  obtain h' g' where "attach new_servo initial_globals 5 1500 1000 1500 = Inr (5, h', g')"
    "s_attached h'" "s_minUs h' = s_maxUs h'" "read h' g' = Inl DivisionByZero"
    by auto
  with 6 7 show ?thesis by blast
qed

end
